theory Spec2Isabelle
  imports Complex_Main "HOL-Library.AList"
begin

section \<open>Python values the model needs\<close>

text \<open>
  Exceptions are values. Only the exception classes that the modelled functions can raise
  are listed; the string is the exception's message (for \<open>KeyError\<close>, the key).
\<close>

datatype error =
    KeyError string
  | ValueError string
  | TypeError string
  | AttributeError string
  | ValidationError string
  | ClientError string

text \<open>
  A Python \<open>dict\<close> with string keys is an association list in insertion order.
  A real dict never holds one key twice; \<open>dict_inv\<close> says so of the list that
  represents it. The four operations are the ones the source uses:
  \<open>d[k] = v\<close>, \<open>d.get(k)\<close>, \<open>k in d\<close> and \<open>del d[k]\<close>,
  the last raising \<open>KeyError\<close> for a key that is not there.
\<close>

type_synonym 'v dict = "(string \<times> 'v) list"

definition dict_inv :: "'v dict \<Rightarrow> bool" where
  "dict_inv d = distinct (map fst d)"

definition dict_set :: "string \<Rightarrow> 'v \<Rightarrow> 'v dict \<Rightarrow> 'v dict" where
  "dict_set k v d = AList.update k v d"

definition dict_get :: "'v dict \<Rightarrow> string \<Rightarrow> 'v option" where
  "dict_get d k = map_of d k"

definition dict_contains :: "string \<Rightarrow> 'v dict \<Rightarrow> bool" where
  "dict_contains k d = (k \<in> set (map fst d))"

definition dict_del :: "string \<Rightarrow> 'v dict \<Rightarrow> error + 'v dict" where
  "dict_del k d = (if dict_contains k d then Inr (AList.delete k d) else Inl (KeyError k))"

text \<open>
  A \<open>datetime\<close> is its calendar fields, counted in microseconds since the first
  instant of year 1, and its offset from UTC in microseconds, or \<open>None\<close> for a naive
  datetime, which has no time zone. A \<open>timedelta\<close> is a number of microseconds.
  Python compares and subtracts two naive datetimes by their fields and two aware ones by
  their UTC instants; for one of each kind it raises \<open>TypeError\<close>.
\<close>

record datetime =
  wall_clock :: int
  utcoffset :: "int option"

type_synonym timedelta = int

definition timedelta_days :: "int \<Rightarrow> timedelta" where
  "timedelta_days n = n * 86400000000"

definition timedelta_minutes :: "int \<Rightarrow> timedelta" where
  "timedelta_minutes n = n * 60000000"

definition datetime_minus :: "datetime \<Rightarrow> timedelta \<Rightarrow> datetime" where
  "datetime_minus d delta = d\<lparr>wall_clock := wall_clock d - delta\<rparr>"

definition datetime_ge :: "datetime \<Rightarrow> datetime \<Rightarrow> error + bool" where
  "datetime_ge a b =
     (case (utcoffset a, utcoffset b) of
        (None, None) \<Rightarrow> Inr (wall_clock b \<le> wall_clock a)
      | (Some oa, Some ob) \<Rightarrow> Inr (wall_clock b - ob \<le> wall_clock a - oa)
      | _ \<Rightarrow> Inl (TypeError ''can't compare offset-naive and offset-aware datetimes''))"

definition datetime_sub :: "datetime \<Rightarrow> datetime \<Rightarrow> error + timedelta" where
  "datetime_sub a b =
     (case (utcoffset a, utcoffset b) of
        (None, None) \<Rightarrow> Inr (wall_clock a - wall_clock b)
      | (Some oa, Some ob) \<Rightarrow> Inr ((wall_clock a - oa) - (wall_clock b - ob))
      | _ \<Rightarrow> Inl (TypeError ''can't subtract offset-naive and offset-aware datetimes''))"

section \<open>Double-precision addition\<close>

text \<open>
  \<open>time.time()\<close> returns a double, and \<open>+\<close> on doubles is the addition of IEEE 754
  binary64: the exact sum, rounded to the nearest number with a significand of 53 bits,
  a tie going to the even significand. Times are real numbers in the model; the doubles are
  the reals that \<open>round_double\<close> leaves unchanged, and \<open>double_add\<close> rounds the
  exact sum. \<open>bit_length\<close> is the number of binary digits of a natural number, so
  \<open>binary_exponent x\<close> is the integer below the binary logarithm of \<open>\<bar>x\<bar>\<close>, and the
  spacing of the doubles around \<open>x\<close> is two to the power \<open>binary_exponent x - 52\<close>.
  The exponent range of binary64 is left out, as it plays no part in adding 300 to a finite
  double: the sum is below the overflow threshold, and it is zero or a multiple of the
  spacing of the doubles near 300, so it is never a subnormal number.
\<close>

fun bit_length :: "nat \<Rightarrow> nat" where
  "bit_length n = (if n = 0 then 0 else Suc (bit_length (n div 2)))"

declare bit_length.simps [simp del]

definition binary_exponent :: "real \<Rightarrow> int" where
  "binary_exponent x =
     (if 1 \<le> \<bar>x\<bar> then int (bit_length (nat \<lfloor>\<bar>x\<bar>\<rfloor>)) - 1
      else - int (bit_length (nat (\<lceil>1 / \<bar>x\<bar>\<rceil> - 1))))"

definition pow2 :: "int \<Rightarrow> real" where
  "pow2 k = (if 0 \<le> k then 2 ^ nat k else 1 / 2 ^ nat (- k))"

definition round_half_even :: "real \<Rightarrow> int" where
  "round_half_even z =
     (let f = \<lfloor>z\<rfloor>
      in if z - of_int f < 1 / 2 then f
         else if 1 / 2 < z - of_int f then f + 1
         else if even f then f else f + 1)"

definition round_double :: "real \<Rightarrow> real" where
  "round_double x =
     (if x = 0 then 0
      else (let ulp = pow2 (binary_exponent x - 52)
            in of_int (round_half_even (x / ulp)) * ulp))"

definition double_add :: "real \<Rightarrow> real \<Rightarrow> real" where
  "double_add a b = round_double (a + b)"

section \<open>The pending-operation registry (common/utils.py)\<close>

text \<open>
  \<open>_pending_operations\<close> maps a confirmation token to the tuple
  \<open>(operation_type, params, expiration_time)\<close>. The module-level dictionary is passed
  and returned explicitly. The two ambient inputs are parameters: \<open>now\<close> is the reading
  of \<open>time.time()\<close> (seconds, a double), and the token handed to
  \<open>add_pending_operation\<close> is the value \<open>uuid.uuid4()\<close> produced for that call.
  The expiration time is the double sum \<open>time.time() + EXPIRATION_TIME\<close>.
  \<open>params\<close> is opaque to the registry, so its type is a parameter.
\<close>

type_synonym 'p pending_operation = "string \<times> 'p \<times> real"

type_synonym 'p pending_operations = "'p pending_operation dict"

definition EXPIRATION_TIME :: real where
  "EXPIRATION_TIME = 300"

definition expiration_time :: "'p pending_operation \<Rightarrow> real" where
  "expiration_time r = snd (snd r)"

text \<open>
  \<open>generate_confirmation_token\<close> returns \<open>str(uuid.uuid4())\<close>: the next value of a
  random source. The source of randomness is the argument; the function hands it on.
\<close>

definition generate_confirmation_token :: "string \<Rightarrow> string" where
  "generate_confirmation_token uuid4 = uuid4"

definition add_pending_operation ::
  "string \<Rightarrow> real \<Rightarrow> string \<Rightarrow> 'p \<Rightarrow> 'p pending_operations \<Rightarrow> string \<times> 'p pending_operations" where
  "add_pending_operation uuid4 now operation_type params pending =
     (let token = generate_confirmation_token uuid4;
          expiration = double_add now EXPIRATION_TIME
      in (token, dict_set token (operation_type, params, expiration) pending))"

text \<open>
  \<open>cleanup_expired_operations\<close> first collects the tokens whose expiration time is
  strictly below the current time, then deletes them one by one.
\<close>

definition expired_tokens :: "real \<Rightarrow> 'p pending_operations \<Rightarrow> string list" where
  "expired_tokens current_time pending =
     map fst (filter (\<lambda>(token, (_, _, expiration)). expiration < current_time) pending)"

fun del_all :: "string list \<Rightarrow> 'v dict \<Rightarrow> error + 'v dict" where
  "del_all [] d = Inr d"
| "del_all (token # tokens) d =
     (case dict_del token d of Inl e \<Rightarrow> Inl e | Inr d' \<Rightarrow> del_all tokens d')"

definition cleanup_expired_operations ::
  "real \<Rightarrow> 'p pending_operations \<Rightarrow> error + 'p pending_operations" where
  "cleanup_expired_operations current_time pending =
     del_all (expired_tokens current_time pending) pending"

definition get_pending_operation ::
  "real \<Rightarrow> string \<Rightarrow> 'p pending_operations \<Rightarrow>
     error + ('p pending_operation option \<times> 'p pending_operations)" where
  "get_pending_operation now token pending =
     (case cleanup_expired_operations now pending of
        Inl e \<Rightarrow> Inl e
      | Inr pending' \<Rightarrow> Inr (dict_get pending' token, pending'))"

definition remove_pending_operation ::
  "string \<Rightarrow> 'p pending_operations \<Rightarrow> error + (bool \<times> 'p pending_operations)" where
  "remove_pending_operation token pending =
     (if dict_contains token pending
      then (case dict_del token pending of
              Inl e \<Rightarrow> Inl e
            | Inr pending' \<Rightarrow> Inr (True, pending'))
      else Inr (False, pending))"

text \<open>The records a sweep at \<open>current_time\<close> keeps: those not strictly in the past.\<close>

definition unexpired :: "real \<Rightarrow> 'p pending_operations \<Rightarrow> 'p pending_operations" where
  "unexpired current_time pending =
     filter (\<lambda>r. \<not> expiration_time (snd r) < current_time) pending"

text \<open>
  Sequences of calls on the registry. A request is one call of
  \<open>add_pending_operation\<close>, \<open>get_pending_operation\<close> or
  \<open>remove_pending_operation\<close>, with the ambient inputs of that call;
  \<open>run_requests\<close> performs a sequence of them on the registry, \<open>issue_all\<close> a
  sequence of issues, collecting the returned tokens. \<open>fresh_supply\<close> is the hypothesis
  that each generated token differs from every token in the registry at the time of its
  call.
\<close>

datatype 'p request =
    Issue string real string 'p
  | Lookup real string
  | Remove string

fun apply_request :: "'p request \<Rightarrow> 'p pending_operations \<Rightarrow> error + 'p pending_operations" where
  "apply_request (Issue uuid4 now operation_type params) pending =
     Inr (snd (add_pending_operation uuid4 now operation_type params pending))"
| "apply_request (Lookup now token) pending =
     (case get_pending_operation now token pending of
        Inl e \<Rightarrow> Inl e
      | Inr (found, pending') \<Rightarrow> Inr pending')"
| "apply_request (Remove token) pending =
     (case remove_pending_operation token pending of
        Inl e \<Rightarrow> Inl e
      | Inr (removed, pending') \<Rightarrow> Inr pending')"

fun run_requests :: "'p request list \<Rightarrow> 'p pending_operations \<Rightarrow> error + 'p pending_operations" where
  "run_requests [] pending = Inr pending"
| "run_requests (req # reqs) pending =
     (case apply_request req pending of
        Inl e \<Rightarrow> Inl e
      | Inr pending' \<Rightarrow> run_requests reqs pending')"

fun issue_all ::
  "(string \<times> real \<times> string \<times> 'p) list \<Rightarrow> 'p pending_operations \<Rightarrow>
     string list \<times> 'p pending_operations" where
  "issue_all [] pending = ([], pending)"
| "issue_all ((uuid4, now, operation_type, params) # calls) pending =
     (let (token, pending') = add_pending_operation uuid4 now operation_type params pending;
          (tokens, pending'') = issue_all calls pending'
      in (token # tokens, pending''))"

fun fresh_supply :: "(string \<times> real \<times> string \<times> 'p) list \<Rightarrow> 'p pending_operations \<Rightarrow> bool" where
  "fresh_supply [] pending = True"
| "fresh_supply ((uuid4, now, operation_type, params) # calls) pending =
     (\<not> dict_contains uuid4 pending \<and>
      fresh_supply calls (snd (add_pending_operation uuid4 now operation_type params pending)))"

text \<open>
  A request leaves the record under \<open>token\<close>, which expires at \<open>expiration\<close>,
  alone when it is not a removal of that token, not an issue that generates the same token
  again, and not a lookup at a time past the expiration.
\<close>

fun leaves :: "string \<Rightarrow> real \<Rightarrow> 'p request \<Rightarrow> bool" where
  "leaves token expiration (Issue uuid4 now operation_type params) = (uuid4 \<noteq> token)"
| "leaves token expiration (Lookup now looked_up) = (\<not> expiration < now)"
| "leaves token expiration (Remove removed) = (removed \<noteq> token)"

section \<open>Paginated fetching (common/utils.py)\<close>

text \<open>
  Request parameters are a dictionary of Python values; the shapes the callers pass are
  enough.
\<close>

datatype pyval =
    PyStr string
  | PyInt int
  | PyDatetime datetime
  | PyList "pyval list"
  | PyDict "(string \<times> pyval) list"

text \<open>
  A page of a response is a dictionary; the model keeps the entries that hold lists of raw
  records, which are the only ones \<open>handle_paginated_aws_api_call\<close> reads. The page
  iterator is the sequence of outcomes of fetching the next page: a page, or the exception
  the fetch raises. The boto3 client is a function from the paginator's name and the
  request parameters to the page iterator (\<open>client.get_paginator(name).paginate(**params)\<close>).
  \<open>RDSContext.get_pagination_config()\<close> belongs to another module (context.py): its
  value is the parameter \<open>pagination_config\<close>.
\<close>

type_synonym 'r page = "'r list dict"

type_synonym 'r page_iterator = "(error + 'r page) list"

type_synonym 'r client = "string \<Rightarrow> pyval dict \<Rightarrow> 'r page_iterator"

text \<open>\<open>page.get(result_key, [])\<close>\<close>

definition page_get :: "'r page \<Rightarrow> string \<Rightarrow> 'r list" where
  "page_get page result_key =
     (case dict_get page result_key of None \<Rightarrow> [] | Some items \<Rightarrow> items)"

text \<open>
  The inner loop appends the formatted items of one page to \<open>results\<close>; the outer loop
  takes the pages one by one from the iterator. An exception of \<open>format_function\<close> or
  of a page fetch ends the call. \<open>consume_pages\<close> also returns what is left of the
  iterator when the loop ends.
\<close>

fun format_items :: "('r \<Rightarrow> error + 't) \<Rightarrow> 'r list \<Rightarrow> 't list \<Rightarrow> error + 't list" where
  "format_items format_function [] results = Inr results"
| "format_items format_function (item # items) results =
     (case format_function item of
        Inl e \<Rightarrow> Inl e
      | Inr formatted \<Rightarrow> format_items format_function items (results @ [formatted]))"

fun consume_pages ::
  "('r \<Rightarrow> error + 't) \<Rightarrow> string \<Rightarrow> 'r page_iterator \<Rightarrow> 't list \<Rightarrow>
     (error + 't list) \<times> 'r page_iterator" where
  "consume_pages format_function result_key [] results = (Inr results, [])"
| "consume_pages format_function result_key (Inl e # rest) results = (Inl e, rest)"
| "consume_pages format_function result_key (Inr page # rest) results =
     (case format_items format_function (page_get page result_key) results of
        Inl e \<Rightarrow> (Inl e, rest)
      | Inr results' \<Rightarrow> consume_pages format_function result_key rest results')"

definition handle_paginated_aws_api_call ::
  "'r client \<Rightarrow> pyval \<Rightarrow> string \<Rightarrow> pyval dict \<Rightarrow> ('r \<Rightarrow> error + 't) \<Rightarrow> string \<Rightarrow>
     error + 't list" where
  "handle_paginated_aws_api_call client pagination_config paginator_name operation_parameters
       format_function result_key =
     (let results = [];
          operation_parameters' =
            dict_set ''PaginationConfig'' pagination_config operation_parameters;
          page_iterator = client paginator_name operation_parameters'
      in fst (consume_pages format_function result_key page_iterator results))"

text \<open>All raw records under the result key, in page order and then in-page order.\<close>

definition all_items :: "string \<Rightarrow> 'r page list \<Rightarrow> 'r list" where
  "all_items result_key pages = concat (map (\<lambda>page. page_get page result_key) pages)"

section \<open>The listing resources (resources/db_instance)\<close>

text \<open>
  The raw records are dictionaries all of whose keys are optional; \<open>get_default\<close> is
  \<open>d.get(key, default)\<close> on such a field. The models are pydantic classes: records.
  Of the validation pydantic performs, the only check that a well-typed raw record can fail
  is \<open>ge=0\<close> on the size of a log file. \<open>datetime.fromtimestamp\<close> is the
  parameter \<open>fromtimestamp\<close>, with the exception it may raise. The RDS client that
  \<open>RDSConnectionManager.get_connection()\<close> returns is the parameter \<open>rds_client\<close>.
  The functions are modelled as written, without the decorators \<open>mcp.resource\<close> and
  \<open>handle_exceptions\<close> that wrap them.
\<close>

definition get_default :: "'a option \<Rightarrow> 'a \<Rightarrow> 'a" where
  "get_default entry fallback = (case entry of None \<Rightarrow> fallback | Some v \<Rightarrow> v)"

record TagTypeDef =
  Key :: "string option"
  Value :: "string option"

record DBInstanceTypeDef =
  DBInstanceIdentifier :: "string option"
  DbiResourceId :: "string option"
  DBInstanceStatus :: "string option"
  Engine :: "string option"
  EngineVersion :: "string option"
  DBInstanceClass :: "string option"
  AvailabilityZone :: "string option"
  MultiAZ :: "bool option"
  PubliclyAccessible :: "bool option"
  DBClusterIdentifier :: "string option"
  TagList :: "TagTypeDef list option"

record InstanceSummary =
  instance_id :: string
  dbi_resource_id :: "string option"
  status :: string
  engine :: string
  engine_version :: "string option"
  instance_class :: string
  availability_zone :: "string option"
  multi_az :: bool
  publicly_accessible :: bool
  db_cluster :: "string option"
  tag_list :: "string dict"
  resource_uri :: "string option"

record InstanceSummaryList =
  instances :: "InstanceSummary list"
  count :: int
  resource_uri :: string

fun collect_tags :: "TagTypeDef list \<Rightarrow> string dict \<Rightarrow> string dict" where
  "collect_tags [] tags = tags"
| "collect_tags (tag # rest) tags =
     collect_tags rest
       (case (Key tag, Value tag) of
          (Some k, Some v) \<Rightarrow> dict_set k v tags
        | _ \<Rightarrow> tags)"

definition from_DBInstanceTypeDef :: "DBInstanceTypeDef \<Rightarrow> InstanceSummary" where
  "from_DBInstanceTypeDef instance =
     (let tags = (if TagList instance \<noteq> None \<and> TagList instance \<noteq> Some []
                  then collect_tags (get_default (TagList instance) []) []
                  else [])
      in \<lparr>instance_id = get_default (DBInstanceIdentifier instance) '''',
          dbi_resource_id = DbiResourceId instance,
          status = get_default (DBInstanceStatus instance) '''',
          engine = get_default (Engine instance) '''',
          engine_version = Some (get_default (EngineVersion instance) ''''),
          instance_class = get_default (DBInstanceClass instance) '''',
          availability_zone = AvailabilityZone instance,
          multi_az = get_default (MultiAZ instance) False,
          publicly_accessible = get_default (PubliclyAccessible instance) False,
          db_cluster = DBClusterIdentifier instance,
          tag_list = tags,
          InstanceSummary.resource_uri = None\<rparr>)"

definition list_instances :: "DBInstanceTypeDef client \<Rightarrow> pyval \<Rightarrow> error + InstanceSummaryList" where
  "list_instances rds_client pagination_config =
     (case handle_paginated_aws_api_call rds_client pagination_config
             ''describe_db_instances'' [] (\<lambda>instance. Inr (from_DBInstanceTypeDef instance))
             ''DBInstances'' of
        Inl e \<Rightarrow> Inl e
      | Inr instances' \<Rightarrow>
          Inr \<lparr>instances = instances', count = int (length instances'),
               resource_uri = ''aws-rds://db-instance''\<rparr>)"

record DescribeDBLogFilesDetailsTypeDef =
  LogFileName :: "string option"
  LastWritten :: "int option"
  Size :: "int option"

record 'd DBLogFileSummary =
  log_file_name :: string
  last_written :: 'd
  size' :: int

record 'd DBLogFileList =
  log_files :: "'d DBLogFileSummary list"
  count :: int
  resource_uri :: string

definition from_DescribeDBLogFilesDetailsTypeDef ::
  "(real \<Rightarrow> error + 'd) \<Rightarrow> DescribeDBLogFilesDetailsTypeDef \<Rightarrow> error + 'd DBLogFileSummary" where
  "from_DescribeDBLogFilesDetailsTypeDef fromtimestamp log_file =
     (case fromtimestamp (real_of_int (get_default (LastWritten log_file) 0) / 1000) of
        Inl e \<Rightarrow> Inl e
      | Inr written \<Rightarrow>
          (let size_value = get_default (Size log_file) 0
           in if 0 \<le> size_value
              then Inr \<lparr>log_file_name = get_default (LogFileName log_file) '''',
                        last_written = written,
                        size' = size_value\<rparr>
              else Inl (ValidationError ''size: Input should be greater than or equal to 0'')))"

definition list_db_log_files ::
  "(real \<Rightarrow> error + 'd) \<Rightarrow> DescribeDBLogFilesDetailsTypeDef client \<Rightarrow> pyval \<Rightarrow> string \<Rightarrow>
     error + 'd DBLogFileList" where
  "list_db_log_files fromtimestamp rds_client pagination_config db_instance_identifier =
     (let params = [(''DBInstanceIdentifier'', PyStr db_instance_identifier),
                    (''FileSize'', PyInt 1)]
      in case handle_paginated_aws_api_call rds_client pagination_config
                ''describe_db_log_files'' params
                (from_DescribeDBLogFilesDetailsTypeDef fromtimestamp) ''DescribeDBLogFiles'' of
           Inl e \<Rightarrow> Inl e
         | Inr log_files' \<Rightarrow>
             Inr \<lparr>log_files = log_files', count = int (length log_files'),
                  resource_uri = ''aws-rds://db-instance/{db_instance_identifier}/log''\<rparr>)"

section \<open>The performance report tool (tools/db_instance/create_performance_report.py)\<close>

text \<open>
  The ambient inputs of \<open>create_performance_report\<close> are parameters:
  \<open>readonly_mode\<close> is the value of \<open>RDSContext.readonly_mode()\<close>, \<open>now\<close> the
  naive datetime \<open>datetime.now()\<close> returns, \<open>fromisoformat\<close> the parser
  \<open>datetime.fromisoformat\<close> with the \<open>ValueError\<close> it raises on a malformed
  string, \<open>MCP_SERVER_VERSION\<close> the constant of that name, and
  \<open>create_performance_analysis_report\<close> the collaborator: the call on the client that
  \<open>PIConnectionManager.get_connection()\<close> returns. The function returns its result
  together with the list of parameter dictionaries it passed to the collaborator, so that
  the empty list says the collaborator was not called. The model is the function as
  written, without the decorators \<open>mcp.tool\<close> and \<open>handle_exceptions\<close> that wrap it.
\<close>

definition MIN_DURATION_MINUTES :: int where
  "MIN_DURATION_MINUTES = 5"

definition MAX_DURATION_DAYS :: int where
  "MAX_DURATION_DAYS = 6"

definition DEFAULT_START_DAYS_AGO :: int where
  "DEFAULT_START_DAYS_AGO = 5"

definition DEFAULT_END_DAYS_AGO :: int where
  "DEFAULT_END_DAYS_AGO = 2"

definition REPORT_CREATION_SUCCESS_RESPONSE :: "string \<Rightarrow> string \<Rightarrow> string" where
  "REPORT_CREATION_SUCCESS_RESPONSE report_id dbi_resource_identifier =
     ''Performance analysis report creation has been initiated successfully.'' @ [CHR 0x0A, CHR 0x0A]
     @ ''The report ID is: '' @ report_id @ [CHR 0x0A, CHR 0x0A]
     @ ''This process is asynchronous and will take some time to complete. Once generated,''
     @ [CHR 0x0A]
     @ ''you can access the report details using the Performance Insights dashboard or the aws-rds://db-instance/''
     @ dbi_resource_identifier @ ''/performance_report resource.'' @ [CHR 0x0A, CHR 0x0A]
     @ ''Note: Report generation typically takes a few minutes depending on the time range selected.''
     @ [CHR 0x0A]"

text \<open>
  \<open>time_str.endswith('Z')\<close> and \<open>time_str.replace('Z', '+00:00')\<close>; the latter
  replaces every \<open>Z\<close> of the string.
\<close>

definition endswith_Z :: "string \<Rightarrow> bool" where
  "endswith_Z time_str = (time_str \<noteq> [] \<and> last time_str = CHR ''Z'')"

definition replace_Z :: "string \<Rightarrow> string" where
  "replace_Z time_str = concat (map (\<lambda>c. if c = CHR ''Z'' then ''+00:00'' else [c]) time_str)"

definition parse_iso_datetime :: "(string \<Rightarrow> error + datetime) \<Rightarrow> string \<Rightarrow> error + datetime" where
  "parse_iso_datetime fromisoformat time_str =
     fromisoformat (if endswith_Z time_str then replace_Z time_str else time_str)"

definition get_default_time_range :: "datetime \<Rightarrow> datetime \<times> datetime" where
  "get_default_time_range now =
     (let start = datetime_minus now (timedelta_days DEFAULT_START_DAYS_AGO);
          end = datetime_minus now (timedelta_days DEFAULT_END_DAYS_AGO)
      in (start, end))"

text \<open>
  One of the two blocks of \<open>_parse_time_parameters\<close>: a parameter that is \<open>None\<close>
  or empty takes the default; otherwise it is parsed, and a \<open>ValueError\<close> of the
  parser is raised again with the parameter's name in the message.
\<close>

definition parse_one ::
  "(string \<Rightarrow> error + datetime) \<Rightarrow> string \<Rightarrow> string option \<Rightarrow> datetime \<Rightarrow> error + datetime" where
  "parse_one fromisoformat name time_param default_time =
     (case time_param of
        None \<Rightarrow> Inr default_time
      | Some time_str \<Rightarrow>
          if time_str = [] then Inr default_time
          else (case parse_iso_datetime fromisoformat time_str of
                  Inl (ValueError e) \<Rightarrow> Inl (ValueError (''Invalid '' @ name @ '' format: '' @ e))
                | Inl other \<Rightarrow> Inl other
                | Inr parsed \<Rightarrow> Inr parsed))"

definition parse_time_parameters ::
  "(string \<Rightarrow> error + datetime) \<Rightarrow> datetime \<Rightarrow> string option \<Rightarrow> string option \<Rightarrow>
     error + (datetime \<times> datetime)" where
  "parse_time_parameters fromisoformat now start_time end_time =
     (let (default_start, default_end) = get_default_time_range now
      in case parse_one fromisoformat ''start_time'' start_time default_start of
           Inl e \<Rightarrow> Inl e
         | Inr start \<Rightarrow>
             (case parse_one fromisoformat ''end_time'' end_time default_end of
                Inl e \<Rightarrow> Inl e
              | Inr end \<Rightarrow> Inr (start, end)))"

definition validate_time_range :: "datetime \<Rightarrow> datetime \<Rightarrow> error + unit" where
  "validate_time_range start end =
     (case datetime_ge start end of
        Inl e \<Rightarrow> Inl e
      | Inr True \<Rightarrow> Inl (ValueError ''start_time must be before end_time'')
      | Inr False \<Rightarrow>
          (case datetime_sub end start of
             Inl e \<Rightarrow> Inl e
           | Inr duration \<Rightarrow>
               if duration < timedelta_minutes MIN_DURATION_MINUTES
               then Inl (ValueError ''Time range must be at least 5 minutes'')
               else if duration > timedelta_days MAX_DURATION_DAYS
               then Inl (ValueError ''Time range cannot exceed 6 days'')
               else Inr ()))"

definition add_mcp_tags :: "string \<Rightarrow> pyval dict \<Rightarrow> error + pyval dict" where
  "add_mcp_tags MCP_SERVER_VERSION params =
     (case get_default (dict_get params ''Tags'') (PyList []) of
        PyList tags \<Rightarrow>
          Inr (dict_set ''Tags''
                 (PyList (tags @
                    [PyDict [(''Key'', PyStr ''mcp_server_version''),
                             (''Value'', PyStr MCP_SERVER_VERSION)],
                     PyDict [(''Key'', PyStr ''created_by''),
                             (''Value'', PyStr ''rds-control-plane-mcp-server'')]]))
                 params)
      | _ \<Rightarrow> Inl (AttributeError ''append''))"

definition create_performance_report ::
  "bool \<Rightarrow> (string \<Rightarrow> error + datetime) \<Rightarrow> datetime \<Rightarrow> string \<Rightarrow>
   (pyval dict \<Rightarrow> error + string dict) \<Rightarrow>
   string \<Rightarrow> string option \<Rightarrow> string option \<Rightarrow> (error + string) \<times> pyval dict list" where
  "create_performance_report readonly_mode fromisoformat now MCP_SERVER_VERSION
       create_performance_analysis_report dbi_resource_identifier start_time end_time =
     (if readonly_mode
      then (Inl (ValueError ''You have configured this tool in readonly mode. To make this change you will have to update your configuration.''), [])
      else
        (case parse_time_parameters fromisoformat now start_time end_time of
           Inl e \<Rightarrow> (Inl e, [])
         | Inr (start, end) \<Rightarrow>
             (case validate_time_range start end of
                Inl e \<Rightarrow> (Inl e, [])
              | Inr _ \<Rightarrow>
                  (case add_mcp_tags MCP_SERVER_VERSION
                          [(''ServiceType'', PyStr ''RDS''),
                           (''Identifier'', PyStr dbi_resource_identifier),
                           (''StartTime'', PyDatetime start),
                           (''EndTime'', PyDatetime end)] of
                     Inl e \<Rightarrow> (Inl e, [])
                   | Inr params \<Rightarrow>
                       (case create_performance_analysis_report params of
                          Inl e \<Rightarrow> (Inl e, [params])
                        | Inr response \<Rightarrow>
                            (case dict_get response ''AnalysisReportId'' of
                               None \<Rightarrow>
                                 (Inl (ValueError ''Failed to create performance report: No report ID returned''), [params])
                             | Some report_id \<Rightarrow>
                                 if report_id = []
                                 then (Inl (ValueError ''Failed to create performance report: No report ID returned''), [params])
                                 else (Inr (REPORT_CREATION_SUCCESS_RESPONSE report_id
                                              dbi_resource_identifier), [params])))))))"

text \<open>
  For stating the properties: whether a datetime is aware, and the number by which Python
  orders it among the datetimes of its kind.
\<close>

definition aware :: "datetime \<Rightarrow> bool" where
  "aware d = (utcoffset d \<noteq> None)"

definition instant :: "datetime \<Rightarrow> int" where
  "instant d = wall_clock d - get_default (utcoffset d) 0"

section \<open>Lemmas about double rounding\<close>

lemma bit_length_bounds:
  "0 < n \<Longrightarrow> 2 ^ (bit_length n - 1) \<le> n \<and> n < 2 ^ bit_length n"
proof (induction n rule: bit_length.induct)
  case (1 n)
  show ?case
  proof (cases "n div 2 = 0")
    case True
    then have "n = 1" using "1.prems" by presburger
    then show ?thesis by (simp add: bit_length.simps)
  next
    case False
    then have pos: "0 < n div 2" by simp
    have IH: "2 ^ (bit_length (n div 2) - 1) \<le> n div 2 \<and> n div 2 < 2 ^ bit_length (n div 2)"
      using "1.IH" "1.prems" pos by simp
    have bl: "bit_length n = Suc (bit_length (n div 2))"
      using "1.prems" by (subst bit_length.simps) simp
    have blpos: "0 < bit_length (n div 2)"
      using pos by (subst bit_length.simps) simp
    then obtain k where k: "bit_length (n div 2) = Suc k" by (cases "bit_length (n div 2)") auto
    from IH have "2 ^ k \<le> n div 2" "n div 2 < 2 ^ Suc k" by (simp_all add: k)
    then have "2 * 2 ^ k \<le> n" "n < 2 * 2 ^ Suc k" by presburger+
    then show ?thesis by (simp add: bl k)
  qed
qed

lemma pow2_powr: "pow2 k = 2 powr (of_int k)"
  by (simp add: pow2_def powr_real_of_int inverse_eq_divide)

lemma pow2_pos: "0 < pow2 k"
  by (simp add: pow2_powr)

lemma pow2_mono: "a \<le> b \<Longrightarrow> pow2 a \<le> pow2 b"
  by (simp add: pow2_powr)

lemma pow2_less_iff: "pow2 a < pow2 b \<longleftrightarrow> a < b"
  by (simp add: pow2_powr)

lemma pow2_diff: "pow2 (a - b) = pow2 a / pow2 b"
  by (simp add: pow2_powr powr_diff)

lemma pow2_nat: "pow2 (int n) = 2 ^ n"
  by (simp add: pow2_def)

lemma pow2_neg_nat: "pow2 (- int n) = 1 / 2 ^ n"
  by (simp add: pow2_powr powr_minus powr_realpow inverse_eq_divide)

lemma binary_exponent_bounds:
  assumes "0 < x"
  shows "pow2 (binary_exponent x) \<le> x \<and> x < pow2 (binary_exponent x + 1)"
proof (cases "1 \<le> x")
  case True
  define n where "n = nat \<lfloor>x\<rfloor>"
  have npos: "0 < n" using True by (simp add: n_def)
  have nx: "real n \<le> x" "x < real n + 1"
    using True unfolding n_def by linarith+
  from bit_length_bounds[OF npos]
  have b: "2 ^ (bit_length n - 1) \<le> n" "n < 2 ^ bit_length n" by simp_all
  have blpos: "0 < bit_length n" using npos by (subst bit_length.simps) simp
  have e: "binary_exponent x = int (bit_length n - 1)"
    using True blpos assms by (simp add: binary_exponent_def n_def)
  have e1: "binary_exponent x + 1 = int (bit_length n)"
    using blpos by (simp add: e)
  have "(2::real) ^ (bit_length n - 1) \<le> real n"
  proof -
    have "real (2 ^ (bit_length n - 1)) \<le> real n" using b(1) by (rule of_nat_mono)
    then show ?thesis by simp
  qed
  moreover have "real n + 1 \<le> 2 ^ bit_length n"
  proof -
    have "n + 1 \<le> 2 ^ bit_length n" using b(2) by simp
    then have "real (n + 1) \<le> real (2 ^ bit_length n)" by (rule of_nat_mono)
    then show ?thesis by simp
  qed
  ultimately show ?thesis
    using nx unfolding e1 unfolding e pow2_nat by linarith
next
  case False
  define y where "y = 1 / x"
  have y1: "1 < y" using False assms by (simp add: y_def)
  define m where "m = nat (\<lceil>y\<rceil> - 1)"
  have c2: "2 \<le> \<lceil>y\<rceil>" using y1 by linarith
  then have mpos: "0 < m" by (simp add: m_def)
  have my: "real m < y" "y \<le> real m + 1"
    using c2 unfolding m_def by linarith+
  from bit_length_bounds[OF mpos]
  have b: "2 ^ (bit_length m - 1) \<le> m" "m < 2 ^ bit_length m" by simp_all
  have blpos: "0 < bit_length m" using mpos by (subst bit_length.simps) simp
  have e: "binary_exponent x = - int (bit_length m)"
    using False assms by (simp add: binary_exponent_def m_def y_def)
  have lo: "(2::real) ^ (bit_length m - 1) \<le> real m"
  proof -
    have "real (2 ^ (bit_length m - 1)) \<le> real m" using b(1) by (rule of_nat_mono)
    then show ?thesis by simp
  qed
  have hi: "real m + 1 \<le> 2 ^ bit_length m"
  proof -
    have "m + 1 \<le> 2 ^ bit_length m" using b(2) by simp
    then have "real (m + 1) \<le> real (2 ^ bit_length m)" by (rule of_nat_mono)
    then show ?thesis by simp
  qed
  have ylo: "2 ^ (bit_length m - 1) < y" and yhi: "y \<le> 2 ^ bit_length m"
    using lo hi my by linarith+
  have p1: "pow2 (binary_exponent x) = 1 / 2 ^ bit_length m"
    by (simp only: e pow2_neg_nat)
  have p2: "pow2 (binary_exponent x + 1) = 1 / 2 ^ (bit_length m - 1)"
  proof -
    have "binary_exponent x + 1 = - int (bit_length m - 1)" using blpos by (simp add: e)
    then show ?thesis by (simp only: pow2_neg_nat)
  qed
  have x: "x = 1 / y" using assms by (simp add: y_def)
  have "1 / 2 ^ bit_length m \<le> 1 / y"
    using yhi y1 by (simp add: frac_le)
  moreover have "1 / y < 1 / 2 ^ (bit_length m - 1)"
    using ylo by (simp add: frac_less2)
  ultimately show ?thesis
    using p1 p2 x by simp
qed

lemma round_half_even_int: "round_half_even (of_int k) = k"
  by (simp add: round_half_even_def)

lemma round_half_even_bounds: "\<lfloor>z\<rfloor> \<le> round_half_even z \<and> round_half_even z \<le> \<lfloor>z\<rfloor> + 1"
  by (simp add: round_half_even_def Let_def)

lemma round_half_even_mono:
  assumes "z \<le> w"
  shows "round_half_even z \<le> round_half_even w"
proof (cases "\<lfloor>z\<rfloor> = \<lfloor>w\<rfloor>")
  case True
  then show ?thesis
    using assms by (auto simp: round_half_even_def Let_def)
next
  case False
  then have "\<lfloor>z\<rfloor> + 1 \<le> \<lfloor>w\<rfloor>"
    using assms floor_mono[OF assms] by linarith
  then show ?thesis
    using round_half_even_bounds[of z] round_half_even_bounds[of w] by linarith
qed

lemma round_double_pos_eq:
  "0 < x \<Longrightarrow> round_double x =
     of_int (round_half_even (x / pow2 (binary_exponent x - 52))) * pow2 (binary_exponent x - 52)"
  by (simp add: round_double_def Let_def)

lemma pow2_52: "pow2 e / pow2 (e - 52) = 2 ^ 52"
proof -
  have "pow2 (e - (e - 52)) = pow2 e / pow2 (e - 52)" by (rule pow2_diff)
  then show ?thesis by (simp add: pow2_def)
qed

lemma pow2_53: "pow2 (e + 1) / pow2 (e - 52) = 2 ^ 53"
proof -
  have "pow2 (e + 1 - (e - 52)) = pow2 (e + 1) / pow2 (e - 52)" by (rule pow2_diff)
  then show ?thesis by (simp add: pow2_def)
qed

lemma round_double_in_binade:
  assumes "0 < x"
  shows "pow2 (binary_exponent x) \<le> round_double x
       \<and> round_double x \<le> pow2 (binary_exponent x + 1)"
proof -
  define e where "e = binary_exponent x"
  define u where "u = pow2 (e - 52)"
  have u: "0 < u" by (simp add: u_def pow2_pos)
  have b: "pow2 e \<le> x" "x < pow2 (e + 1)"
    using binary_exponent_bounds[OF assms] by (simp_all add: e_def)
  have lo: "2 ^ 52 \<le> x / u"
    using b(1) u pow2_52[of e] by (simp add: u_def field_simps)
  have hi: "x / u \<le> 2 ^ 53"
    using b(2) u pow2_53[of e] by (simp add: u_def field_simps)
  have "round_half_even (of_int (2 ^ 52)) \<le> round_half_even (x / u)"
    by (rule round_half_even_mono) (use lo in simp)
  then have rlo: "2 ^ 52 \<le> round_half_even (x / u)"
    by (simp only: round_half_even_int)
  have "round_half_even (x / u) \<le> round_half_even (of_int (2 ^ 53))"
    by (rule round_half_even_mono) (use hi in simp)
  then have rhi: "round_half_even (x / u) \<le> 2 ^ 53"
    by (simp only: round_half_even_int)
  have r: "round_double x = of_int (round_half_even (x / u)) * u"
    using assms by (simp add: round_double_pos_eq u_def e_def)
  have "pow2 e = 2 ^ 52 * u" using pow2_52[of e] u by (simp add: u_def field_simps)
  moreover have "pow2 (e + 1) = 2 ^ 53 * u" using pow2_53[of e] u by (simp add: u_def field_simps)
  moreover have "2 ^ 52 * u \<le> of_int (round_half_even (x / u)) * u"
  proof (rule mult_right_mono)
    have "real_of_int (2 ^ 52) \<le> real_of_int (round_half_even (x / u))"
      using rlo by simp
    then show "2 ^ 52 \<le> real_of_int (round_half_even (x / u))" by simp
  qed (use u in simp)
  moreover have "of_int (round_half_even (x / u)) * u \<le> 2 ^ 53 * u"
  proof (rule mult_right_mono)
    have "real_of_int (round_half_even (x / u)) \<le> real_of_int (2 ^ 53)"
      using rhi by simp
    then show "real_of_int (round_half_even (x / u)) \<le> 2 ^ 53" by simp
  qed (use u in simp)
  ultimately show ?thesis
    unfolding r e_def[symmetric] by simp
qed

lemma round_double_mono_pos:
  assumes "0 < x" and "x \<le> y"
  shows "round_double x \<le> round_double y"
proof -
  have ypos: "0 < y" using assms by simp
  define ex where "ex = binary_exponent x"
  define ey where "ey = binary_exponent y"
  have bx: "pow2 ex \<le> x" "x < pow2 (ex + 1)"
    using binary_exponent_bounds[OF assms(1)] by (simp_all add: ex_def)
  have by': "pow2 ey \<le> y" "y < pow2 (ey + 1)"
    using binary_exponent_bounds[OF ypos] by (simp_all add: ey_def)
  have "pow2 ex < pow2 (ey + 1)" using bx(1) assms(2) by'(2) by linarith
  then have le: "ex \<le> ey" by (simp add: pow2_less_iff)
  show ?thesis
  proof (cases "ex = ey")
    case True
    define u where "u = pow2 (ex - 52)"
    have u: "0 < u" by (simp add: u_def pow2_pos)
    have "x / u \<le> y / u" using assms(2) u by (simp add: divide_right_mono)
    then have "round_half_even (x / u) \<le> round_half_even (y / u)"
      by (rule round_half_even_mono)
    then have "real_of_int (round_half_even (x / u)) \<le> real_of_int (round_half_even (y / u))"
      by simp
    then have "of_int (round_half_even (x / u)) * u \<le> of_int (round_half_even (y / u)) * u"
      using u by (simp add: mult_right_mono)
    then show ?thesis
      using assms(1) ypos True
      by (simp add: round_double_pos_eq u_def ex_def[symmetric] ey_def[symmetric])
  next
    case False
    then have "ex + 1 \<le> ey" using le by simp
    then have "pow2 (ex + 1) \<le> pow2 ey" by (rule pow2_mono)
    moreover have "round_double x \<le> pow2 (ex + 1)"
      using round_double_in_binade[OF assms(1)] by (simp add: ex_def)
    moreover have "pow2 ey \<le> round_double y"
      using round_double_in_binade[OF ypos] by (simp add: ey_def)
    ultimately show ?thesis by linarith
  qed
qed

lemma round_half_even_error: "\<bar>of_int (round_half_even z) - z\<bar> \<le> 1 / 2"
  by (auto simp: round_half_even_def Let_def abs_if) linarith+

lemma round_double_error:
  assumes "0 < x"
  shows "\<bar>round_double x - x\<bar> \<le> pow2 (binary_exponent x - 53)"
proof -
  define u where "u = pow2 (binary_exponent x - 52)"
  have u: "0 < u" by (simp add: u_def pow2_pos)
  have half: "pow2 (binary_exponent x - 53) = u / 2"
  proof -
    have "pow2 (binary_exponent x - 52 - 1) = pow2 (binary_exponent x - 52) / pow2 1"
      by (rule pow2_diff)
    then show ?thesis by (simp add: u_def pow2_def)
  qed
  have "round_double x - x = (of_int (round_half_even (x / u)) - x / u) * u"
    using assms u by (simp add: round_double_pos_eq u_def field_simps)
  then have "\<bar>round_double x - x\<bar> = \<bar>of_int (round_half_even (x / u)) - x / u\<bar> * u"
    using u by (simp add: abs_mult)
  also have "\<dots> \<le> 1 / 2 * u"
    using round_half_even_error[of "x / u"] u by (simp add: mult_right_mono)
  finally show ?thesis by (simp add: half)
qed

text \<open>Evaluating the rounding at a given number.\<close>

lemmas double_eval =
  double_add_def round_double_def binary_exponent_def pow2_def round_half_even_def
  bit_length.simps Let_def

section \<open>Lemmas about the dictionary operations\<close>

lemma dict_inv_Nil: "dict_inv []"
  by (simp add: dict_inv_def)

lemma dict_inv_set: "dict_inv d \<Longrightarrow> dict_inv (dict_set k v d)"
  by (simp add: dict_inv_def dict_set_def distinct_update)

lemma dict_inv_delete: "dict_inv d \<Longrightarrow> dict_inv (AList.delete k d)"
  by (simp add: dict_inv_def distinct_delete)

lemma dict_inv_filter: "dict_inv d \<Longrightarrow> dict_inv (filter P d)"
  by (simp add: dict_inv_def distinct_map_filter)

lemma delete_filter: "AList.delete k d = filter (\<lambda>r. fst r \<noteq> k) d"
  by (induction d) auto

lemma dict_set_fresh: "\<not> dict_contains k d \<Longrightarrow> dict_set k v d = d @ [(k, v)]"
  by (induction d) (auto simp: dict_set_def dict_contains_def)

lemma dict_get_set: "dict_get (dict_set k v d) k' = (if k' = k then Some v else dict_get d k')"
  by (simp add: dict_get_def dict_set_def update_conv')

lemma dict_get_delete: "dict_get (AList.delete k d) k' = (if k' = k then None else dict_get d k')"
  by (simp add: dict_get_def delete_conv')

lemma dict_contains_get: "dict_contains k d \<longleftrightarrow> dict_get d k \<noteq> None"
  by (simp add: dict_contains_def dict_get_def map_of_eq_None_iff)

lemma length_dict_set:
  "length (dict_set k v d) = (if dict_contains k d then length d else length d + 1)"
  by (induction d) (auto simp: dict_set_def dict_contains_def)

text \<open>
  Deleting a list of distinct keys, all present, never raises and leaves exactly the
  entries under the other keys, in their order.
\<close>

lemma del_all_filter:
  "distinct ks \<Longrightarrow> set ks \<subseteq> fst ` set d \<Longrightarrow>
   del_all ks d = Inr (filter (\<lambda>r. fst r \<notin> set ks) d)"
proof (induction ks arbitrary: d)
  case Nil
  then show ?case by simp
next
  case (Cons k ks)
  have kd: "dict_contains k d"
    using Cons.prems by (auto simp: dict_contains_def)
  have sub: "set ks \<subseteq> fst ` set (AList.delete k d)"
  proof
    fix x assume x: "x \<in> set ks"
    then have "x \<noteq> k" using Cons.prems(1) by auto
    moreover obtain v where "(x, v) \<in> set d" using x Cons.prems(2) by auto
    ultimately have "(x, v) \<in> set (AList.delete k d)" by (simp add: delete_filter)
    then show "x \<in> fst ` set (AList.delete k d)" by force
  qed
  have "del_all (k # ks) d = del_all ks (AList.delete k d)"
    using kd by (simp add: dict_del_def)
  also have "\<dots> = Inr (filter (\<lambda>r. fst r \<notin> set ks) (AList.delete k d))"
    using Cons.IH[OF _ sub] Cons.prems by simp
  also have "filter (\<lambda>r. fst r \<notin> set ks) (AList.delete k d)
      = filter (\<lambda>r. fst r \<notin> set (k # ks)) d"
    by (auto simp: delete_filter intro: filter_cong)
  finally show ?case .
qed

lemma key_in_filter:
  "distinct (map fst d) \<Longrightarrow> r \<in> set d \<Longrightarrow> fst r \<in> fst ` set (filter P d) \<longleftrightarrow> P r"
  by (induction d) (auto simp: rev_image_eqI)

section \<open>Lemmas about the registry\<close>

text \<open>On a well-formed dictionary the sweep never raises and keeps the unexpired records.\<close>

lemma cleanup_unexpired:
  assumes "dict_inv d"
  shows "cleanup_expired_operations now d = Inr (unexpired now d)"
proof -
  define P :: "string \<times> 'a pending_operation \<Rightarrow> bool"
    where "P = (\<lambda>(token, (_, _, expiration)). expiration < now)"
  have P: "P r \<longleftrightarrow> expiration_time (snd r) < now" for r
    by (auto simp: P_def expiration_time_def split: prod.splits)
  have d: "distinct (map fst d)"
    using assms by (simp add: dict_inv_def)
  have "cleanup_expired_operations now d = del_all (map fst (filter P d)) d"
    by (simp add: cleanup_expired_operations_def expired_tokens_def P_def)
  also have "\<dots> = Inr (filter (\<lambda>r. fst r \<notin> set (map fst (filter P d))) d)"
    by (rule del_all_filter) (use d in \<open>auto simp: distinct_map_filter\<close>)
  also have "filter (\<lambda>r. fst r \<notin> set (map fst (filter P d))) d = filter (\<lambda>r. \<not> P r) d"
    by (rule filter_cong) (use key_in_filter[OF d] in auto)
  also have "\<dots> = unexpired now d"
    by (simp add: unexpired_def P)
  finally show ?thesis .
qed

lemma dict_inv_unexpired: "dict_inv d \<Longrightarrow> dict_inv (unexpired now d)"
  by (simp add: unexpired_def dict_inv_filter)

lemma dict_get_unexpired:
  "dict_inv d \<Longrightarrow> dict_get (unexpired now d) k =
     (case dict_get d k of None \<Rightarrow> None
      | Some r \<Rightarrow> if expiration_time r < now then None else Some r)"
proof (induction d)
  case Nil
  then show ?case by (simp add: dict_get_def unexpired_def)
next
  case (Cons x d)
  then have IH: "map_of (filter (\<lambda>r. \<not> expiration_time (snd r) < now) d) k =
     (case map_of d k of None \<Rightarrow> None
      | Some r \<Rightarrow> if expiration_time r < now then None else Some r)"
    and nk: "fst x \<notin> fst ` set d"
    by (simp_all add: dict_inv_def dict_get_def unexpired_def)
  have none: "map_of (filter (\<lambda>r. \<not> expiration_time (snd r) < now) d) (fst x) = None"
    using nk by (auto simp: map_of_eq_None_iff)
  show ?case
    using IH none by (cases x) (auto simp: dict_get_def unexpired_def)
qed

lemma get_pending_operation_eq:
  "dict_inv d \<Longrightarrow>
   get_pending_operation now k d = Inr (dict_get (unexpired now d) k, unexpired now d)"
  by (simp add: get_pending_operation_def cleanup_unexpired)

lemma add_pending_operation_eq:
  "add_pending_operation uuid4 now operation_type params pending =
     (uuid4, dict_set uuid4 (operation_type, params, double_add now 300) pending)"
  by (simp add: add_pending_operation_def generate_confirmation_token_def EXPIRATION_TIME_def)

lemma remove_pending_operation_eq:
  "remove_pending_operation token pending =
     Inr (dict_contains token pending, AList.delete token pending)"
  by (simp add: remove_pending_operation_def dict_del_def dict_contains_def)

lemma apply_request_inv:
  "dict_inv pending \<Longrightarrow> \<exists>pending'. apply_request req pending = Inr pending' \<and> dict_inv pending'"
  by (cases req)
    (simp_all add: add_pending_operation_eq dict_inv_set get_pending_operation_eq
      dict_inv_unexpired remove_pending_operation_eq dict_inv_delete)

lemma run_requests_inv:
  "dict_inv pending \<Longrightarrow> \<exists>pending'. run_requests reqs pending = Inr pending' \<and> dict_inv pending'"
proof (induction reqs arbitrary: pending)
  case Nil
  then show ?case by simp
next
  case (Cons req reqs)
  from apply_request_inv[OF Cons.prems, of req]
  obtain p1 where p1: "apply_request req pending = Inr p1" "dict_inv p1" by blast
  from Cons.IH[OF p1(2)] show ?case by (simp add: p1(1))
qed

lemma keys_dict_set: "fst ` set (dict_set k v d) = insert k (fst ` set d)"
  by (simp add: dict_set_def dom_update)

lemma issue_all_tokens:
  "fresh_supply calls pending \<Longrightarrow>
     distinct (fst (issue_all calls pending))
   \<and> length (fst (issue_all calls pending)) = length calls
   \<and> set (fst (issue_all calls pending)) \<inter> fst ` set pending = {}
   \<and> fst ` set (snd (issue_all calls pending)) = fst ` set pending \<union> set (fst (issue_all calls pending))"
proof (induction calls arbitrary: pending)
  case Nil
  then show ?case by simp
next
  case (Cons c calls)
  obtain uuid4 now ot params where c: "c = (uuid4, now, ot, params)" by (cases c) auto
  let ?p1 = "dict_set uuid4 (ot, params, double_add now 300) pending"
  have fresh: "uuid4 \<notin> fst ` set pending" and rest: "fresh_supply calls ?p1"
    using Cons.prems by (simp_all add: c add_pending_operation_eq dict_contains_def)
  note IH = Cons.IH[OF rest]
  have step: "issue_all (c # calls) pending = (uuid4 # fst (issue_all calls ?p1), snd (issue_all calls ?p1))"
    by (simp add: c add_pending_operation_eq split: prod.splits)
  show ?case
    unfolding step using IH fresh by (auto simp: keys_dict_set)
qed

lemma issue_all_length:
  "fresh_supply calls pending \<Longrightarrow>
     length (snd (issue_all calls pending)) = length pending + length calls"
proof (induction calls arbitrary: pending)
  case Nil
  then show ?case by simp
next
  case (Cons c calls)
  obtain uuid4 now ot params where c: "c = (uuid4, now, ot, params)" by (cases c) auto
  have fresh: "\<not> dict_contains uuid4 pending"
    and rest: "fresh_supply calls (dict_set uuid4 (ot, params, double_add now 300) pending)"
    using Cons.prems by (simp_all add: c add_pending_operation_eq)
  show ?case
    using Cons.IH[OF rest]
    by (auto simp: c add_pending_operation_eq dict_set_fresh[OF fresh] split: prod.splits)
qed

lemma apply_request_leaves:
  assumes "dict_inv pending" and "dict_get pending token = Some r"
    and "leaves token (expiration_time r) req"
  shows "\<exists>pending'. apply_request req pending = Inr pending' \<and> dict_inv pending'
            \<and> dict_get pending' token = Some r"
  using assms
  by (cases req)
    (simp_all add: add_pending_operation_eq dict_inv_set dict_get_set get_pending_operation_eq
      dict_inv_unexpired dict_get_unexpired remove_pending_operation_eq dict_inv_delete
      dict_get_delete)

lemma run_requests_leaves:
  assumes "dict_inv pending" and "dict_get pending token = Some r"
    and "list_all (leaves token (expiration_time r)) reqs"
  shows "\<exists>pending'. run_requests reqs pending = Inr pending' \<and> dict_inv pending'
            \<and> dict_get pending' token = Some r"
  using assms
proof (induction reqs arbitrary: pending)
  case Nil
  then show ?case by simp
next
  case (Cons req reqs)
  from apply_request_leaves[OF Cons.prems(1,2), of req] Cons.prems(3)
  obtain p1 where p1: "apply_request req pending = Inr p1" "dict_inv p1"
    "dict_get p1 token = Some r" by auto
  from Cons.IH[OF p1(2,3)] Cons.prems(3) show ?case by (simp add: p1(1))
qed

section \<open>Lemmas about paginated fetching\<close>

lemma format_items_ok:
  "\<forall>item \<in> set items. format_function item = Inr (f item) \<Longrightarrow>
   format_items format_function items results = Inr (results @ map f items)"
  by (induction items arbitrary: results) auto

lemma consume_pages_ok:
  "\<forall>item \<in> set (all_items result_key pages). format_function item = Inr (f item) \<Longrightarrow>
   consume_pages format_function result_key (map Inr pages) results
     = (Inr (results @ map f (all_items result_key pages)), [])"
proof (induction pages arbitrary: results)
  case Nil
  then show ?case by (simp add: all_items_def)
next
  case (Cons page pages)
  have here: "\<forall>item \<in> set (page_get page result_key). format_function item = Inr (f item)"
    and later: "\<forall>item \<in> set (all_items result_key pages). format_function item = Inr (f item)"
    using Cons.prems by (auto simp: all_items_def)
  show ?case
    using Cons.IH[OF later] format_items_ok[OF here]
    by (simp add: all_items_def)
qed

lemma consume_pages_append:
  "fst (consume_pages format_function result_key (xs @ ys) results) =
     (case fst (consume_pages format_function result_key xs results) of
        Inl e \<Rightarrow> Inl e
      | Inr results' \<Rightarrow> fst (consume_pages format_function result_key ys results'))"
  by (induction format_function result_key xs results rule: consume_pages.induct)
    (auto split: sum.splits)

lemma consume_pages_skip:
  "page_get page result_key = [] \<Longrightarrow>
   fst (consume_pages format_function result_key (xs @ Inr page # ys) results) =
   fst (consume_pages format_function result_key (xs @ ys) results)"
  by (simp add: consume_pages_append split: sum.splits)

section \<open>Lemmas about the performance report tool\<close>

text \<open>
  Between two datetimes of the same kind the validation is a comparison of instants. For
  one naive and one aware datetime the first comparison itself raises \<open>TypeError\<close>.
  In readonly mode, and whenever the parsed times are of the same kind and the start is not
  before the end or the duration is below five minutes or above six days, the tool raises
  \<open>ValueError\<close> and the collaborator is not called.
\<close>

lemma validate_time_range_same_kind:
  assumes "aware start = aware end"
  shows "validate_time_range start end =
     (if instant end \<le> instant start
      then Inl (ValueError ''start_time must be before end_time'')
      else if instant end - instant start < 300000000
      then Inl (ValueError ''Time range must be at least 5 minutes'')
      else if 518400000000 < instant end - instant start
      then Inl (ValueError ''Time range cannot exceed 6 days'')
      else Inr ())"
  using assms
  by (cases "utcoffset start"; cases "utcoffset end")
    (simp_all add: validate_time_range_def datetime_ge_def datetime_sub_def aware_def
      instant_def get_default_def timedelta_minutes_def timedelta_days_def
      MIN_DURATION_MINUTES_def MAX_DURATION_DAYS_def)

lemma validate_time_range_mixed:
  assumes "aware start \<noteq> aware end"
  shows "validate_time_range start end =
     Inl (TypeError ''can't compare offset-naive and offset-aware datetimes'')"
  using assms
  by (cases "utcoffset start"; cases "utcoffset end")
    (simp_all add: validate_time_range_def datetime_ge_def aware_def)

lemma create_performance_report_rejections:
  "create_performance_report True fromisoformat now version collaborator dbi start_time end_time
     = (Inl (ValueError ''You have configured this tool in readonly mode. To make this change you will have to update your configuration.''), [])
   \<and> (parse_time_parameters fromisoformat now start_time end_time = Inr (start, end)
        \<and> aware start = aware end \<and> instant end \<le> instant start \<longrightarrow>
      create_performance_report False fromisoformat now version collaborator dbi start_time end_time
        = (Inl (ValueError ''start_time must be before end_time''), []))
   \<and> (parse_time_parameters fromisoformat now start_time end_time = Inr (start, end)
        \<and> aware start = aware end \<and> instant start < instant end
        \<and> instant end - instant start < 300000000 \<longrightarrow>
      create_performance_report False fromisoformat now version collaborator dbi start_time end_time
        = (Inl (ValueError ''Time range must be at least 5 minutes''), []))
   \<and> (parse_time_parameters fromisoformat now start_time end_time = Inr (start, end)
        \<and> aware start = aware end \<and> 518400000000 < instant end - instant start \<longrightarrow>
      create_performance_report False fromisoformat now version collaborator dbi start_time end_time
        = (Inl (ValueError ''Time range cannot exceed 6 days''), []))
   \<and> (parse_time_parameters fromisoformat now start_time end_time = Inr (start, end)
        \<and> aware start \<noteq> aware end \<longrightarrow>
      create_performance_report False fromisoformat now version collaborator dbi start_time end_time
        = (Inl (TypeError ''can't compare offset-naive and offset-aware datetimes''), []))"
  by (auto simp: create_performance_report_def validate_time_range_same_kind
      validate_time_range_mixed)

section \<open>The claims about the registry\<close>

text \<open>
  Claim C1, as amended. For every (well-formed) state of the registry and every current
  time, the lookup \<open>get_pending_operation\<close> returns without error, and what it returns
  is the record stored under the token if there is one and its expiration time is not
  strictly below the current time, and \<open>None\<close> otherwise. So a record comes back if
  and only if it is stored (issued and not removed) and unexpired, and a returned record is
  never an expired one. A token issued at time \<open>T\<close> is stored with the expiration time
  \<open>double_add T 300\<close>, the double nearest to \<open>T + 300\<close>. It is found by a lookup at
  any time up to that expiration time, in particular at any positive double time before
  \<open>T + 300\<close>, and it is absent for a lookup at any time after that expiration time.
\<close>

theorem lookup_returns_stored_unexpired:
  assumes "dict_inv pending"
  shows "get_pending_operation now token pending =
           Inr (case dict_get pending token of
                  None \<Rightarrow> None
                | Some r \<Rightarrow> if expiration_time r < now then None else Some r,
                unexpired now pending)
       \<and> (get_pending_operation now token pending = Inr (Some r, pending') \<longleftrightarrow>
            dict_get pending token = Some r \<and> \<not> expiration_time r < now
            \<and> pending' = unexpired now pending)
       \<and> (t \<le> double_add T 300 \<longrightarrow>
             get_pending_operation t uuid4
                 (snd (add_pending_operation uuid4 T operation_type params pending))
               = Inr (Some (operation_type, params, double_add T 300),
                      unexpired t (snd (add_pending_operation uuid4 T operation_type params pending))))
       \<and> (0 < t \<and> round_double t = t \<and> t < T + 300 \<longrightarrow>
             get_pending_operation t uuid4
                 (snd (add_pending_operation uuid4 T operation_type params pending))
               = Inr (Some (operation_type, params, double_add T 300),
                      unexpired t (snd (add_pending_operation uuid4 T operation_type params pending))))
       \<and> (double_add T 300 < t \<longrightarrow>
             get_pending_operation t uuid4
                 (snd (add_pending_operation uuid4 T operation_type params pending))
               = Inr (None,
                      unexpired t (snd (add_pending_operation uuid4 T operation_type params pending))))"
proof -
  have a: "get_pending_operation now token pending =
           Inr (case dict_get pending token of
                  None \<Rightarrow> None
                | Some r \<Rightarrow> if expiration_time r < now then None else Some r,
                unexpired now pending)"
    using assms by (simp add: get_pending_operation_eq dict_get_unexpired)
  have b: "get_pending_operation t uuid4
                 (snd (add_pending_operation uuid4 T operation_type params pending))
           = Inr (if double_add T 300 < t then None
                  else Some (operation_type, params, double_add T 300),
                  unexpired t (snd (add_pending_operation uuid4 T operation_type params pending)))"
    using dict_inv_set[OF assms]
    by (simp add: add_pending_operation_eq get_pending_operation_eq dict_get_unexpired
        dict_get_set expiration_time_def)
  have c: "t \<le> double_add T 300" if "0 < t" "round_double t = t" "t < T + 300"
  proof -
    have "round_double t \<le> round_double (T + 300)"
      using that by (intro round_double_mono_pos) simp_all
    then show ?thesis using that(2) by (simp add: double_add_def)
  qed
  show ?thesis
    unfolding a b using c by (auto split: option.splits)
qed

theorem lookup_returns_stored_unexpired_witness:
  "dict_inv [(''t0'', (''stop_db_cluster'', ''c0'', 50::real))]
   \<and> get_pending_operation 40 ''t0'' [(''t0'', (''stop_db_cluster'', ''c0'', 50::real))]
       = Inr (Some (''stop_db_cluster'', ''c0'', 50), [(''t0'', (''stop_db_cluster'', ''c0'', 50))])
   \<and> get_pending_operation 60 ''t0'' [(''t0'', (''stop_db_cluster'', ''c0'', 50::real))]
       = Inr (None, [])
   \<and> (0::real) < 1299 \<and> round_double 1299 = 1299 \<and> (1299::real) < 1000 + 300
   \<and> (1299::real) \<le> double_add 1000 300
   \<and> get_pending_operation 1299 ''t1''
        (snd (add_pending_operation ''t1'' 1000 ''delete_db_cluster'' ''c1''
               [(''t0'', (''stop_db_cluster'', ''c0'', 50::real))]))
       = Inr (Some (''delete_db_cluster'', ''c1'', 1300),
              [(''t1'', (''delete_db_cluster'', ''c1'', 1300))])
   \<and> double_add 1000 300 < 1301
   \<and> get_pending_operation 1301 ''t1''
        (snd (add_pending_operation ''t1'' 1000 ''delete_db_cluster'' ''c1''
               [(''t0'', (''stop_db_cluster'', ''c0'', 50::real))]))
       = Inr (None, [])"
proof -
  have inv: "dict_inv [(''t0'', (''stop_db_cluster'', ''c0'', 50::real))]"
    by (simp add: dict_inv_def)
  have sum: "double_add 1000 300 = 1300" and dbl: "round_double 1299 = 1299"
    by (simp_all add: double_eval)
  show ?thesis
    using inv
      lookup_returns_stored_unexpired[OF inv, where now = 40 and token = "''t0''"
        and t = 1299 and T = 1000 and ?uuid4.0 = "''t1''"
        and operation_type = "''delete_db_cluster''" and params = "''c1''"]
      lookup_returns_stored_unexpired[OF inv, where now = 60 and token = "''t0''"
        and t = 1301 and T = 1000 and ?uuid4.0 = "''t1''"
        and operation_type = "''delete_db_cluster''" and params = "''c1''"]
    by (simp add: sum dbl expiration_time_def unexpired_def dict_get_def add_pending_operation_eq
        dict_set_def)
qed

text \<open>
  The claim as first stated has the token absent at any time after \<open>T + 300\<close>. The sum is
  rounded, so the stored expiration time can lie above \<open>T + 300\<close>. Here \<open>T\<close> is the
  double 2147483400.0000007 (a time in January 2038); \<open>T + 300\<close> needs 54 bits and is
  rounded up to the double \<open>t\<close> = 2147483700.000001, which is stored. A lookup at
  that time \<open>t\<close>, which is after \<open>T + 300\<close>, still returns the record.
\<close>

theorem lookup_after_ttl_counterexample:
  "round_double (9007198214553603 / 4194304) = 9007198214553603 / 4194304
   \<and> round_double (9007199472844804 / 4194304) = 9007199472844804 / 4194304
   \<and> (9007198214553603 / 4194304 :: real) + 300 < 9007199472844804 / 4194304
   \<and> get_pending_operation (9007199472844804 / 4194304) ''t1''
        (snd (add_pending_operation ''t1'' (9007198214553603 / 4194304)
               ''delete_db_cluster'' ''c1'' []))
      = Inr (Some (''delete_db_cluster'', ''c1'', 9007199472844804 / 4194304),
             [(''t1'', (''delete_db_cluster'', ''c1'', 9007199472844804 / 4194304))])"
proof -
  have sum: "double_add (9007198214553603 / 4194304) 300 = 9007199472844804 / 4194304"
    by (simp add: double_eval)
  have T: "round_double (9007198214553603 / 4194304) = 9007198214553603 / 4194304"
    by (simp add: double_eval)
  have t: "round_double (9007199472844804 / 4194304) = 9007199472844804 / 4194304"
    by (simp add: double_eval)
  have found: "get_pending_operation (9007199472844804 / 4194304) ''t1''
        (snd (add_pending_operation ''t1'' (9007198214553603 / 4194304)
               ''delete_db_cluster'' ''c1'' []))
      = Inr (Some (''delete_db_cluster'', ''c1'', 9007199472844804 / 4194304),
             [(''t1'', (''delete_db_cluster'', ''c1'', 9007199472844804 / 4194304))])"
    by (simp add: add_pending_operation_eq sum dict_set_def get_pending_operation_def
        cleanup_expired_operations_def expired_tokens_def dict_get_def)
  have after: "(9007198214553603 / 4194304 :: real) + 300 < 9007199472844804 / 4194304"
    by simp
  from T t after found show ?thesis by blast
qed

text \<open>
  Claim C3. The expiry comparison is strict. On every (well-formed) registry the sweep
  \<open>cleanup_expired_operations\<close> deletes exactly the records whose expiration time is
  strictly below the current time; a record whose expiration time equals the current time
  survives the sweep, and a lookup at exactly that instant returns it.
\<close>

theorem expiry_comparison_is_strict:
  assumes "dict_inv pending"
  shows "cleanup_expired_operations now pending =
           Inr (filter (\<lambda>r. \<not> expiration_time (snd r) < now) pending)
       \<and> (\<forall>token r. (token, r) \<in> set pending \<and> expiration_time r = now \<longrightarrow>
              (token, r) \<in> set (unexpired now pending)
            \<and> get_pending_operation now token pending = Inr (Some r, unexpired now pending))"
proof -
  have 1: "cleanup_expired_operations now pending = Inr (unexpired now pending)"
    using assms by (rule cleanup_unexpired)
  have 2: "(token, r) \<in> set (unexpired now pending)
       \<and> get_pending_operation now token pending = Inr (Some r, unexpired now pending)"
    if "(token, r) \<in> set pending" "expiration_time r = now" for token r
  proof -
    have "dict_get pending token = Some r"
      using assms that(1) by (simp add: dict_get_def dict_inv_def)
    then have "dict_get (unexpired now pending) token = Some r"
      using that(2) by (simp add: dict_get_unexpired[OF assms])
    moreover have "(token, r) \<in> set (unexpired now pending)"
      using that by (simp add: unexpired_def)
    ultimately show ?thesis
      by (simp add: get_pending_operation_eq[OF assms])
  qed
  show ?thesis
    using 1 2 by (auto simp: unexpired_def)
qed

theorem expiry_comparison_is_strict_witness:
  "dict_inv [(''t1'', (''delete_db_cluster'', ''c1'', 100::real)),
             (''t2'', (''stop_db_cluster'', ''c2'', 99))]
   \<and> cleanup_expired_operations 100
        [(''t1'', (''delete_db_cluster'', ''c1'', 100)), (''t2'', (''stop_db_cluster'', ''c2'', 99))]
       = Inr [(''t1'', (''delete_db_cluster'', ''c1'', 100))]
   \<and> get_pending_operation 100 ''t1''
        [(''t1'', (''delete_db_cluster'', ''c1'', 100)), (''t2'', (''stop_db_cluster'', ''c2'', 99))]
       = Inr (Some (''delete_db_cluster'', ''c1'', 100),
              [(''t1'', (''delete_db_cluster'', ''c1'', 100))])"
proof -
  have inv: "dict_inv [(''t1'', (''delete_db_cluster'', ''c1'', 100::real)),
                       (''t2'', (''stop_db_cluster'', ''c2'', 99))]"
    by (simp add: dict_inv_def)
  show ?thesis
    using inv expiry_comparison_is_strict[OF inv, of 100]
    by (simp add: expiration_time_def unexpired_def)
qed

text \<open>
  Claim C4, as amended. Issuing never fails: \<open>add_pending_operation\<close> has no error
  result. It returns the generated token and stores under it the triple of the operation
  type, the parameters and the expiration time, which is the double sum of \<open>now\<close> and
  300: the double nearest to \<open>now + 300\<close>. The records under all other tokens are
  unchanged. When the generated token is not yet a token of the registry, the registry
  grows by exactly one entry, appended after the others, and every record stored before is
  still stored unchanged. When the generated token is already a token of the registry, its
  record is replaced and the registry does not grow.
\<close>

theorem add_pending_operation_stores_record:
  "add_pending_operation uuid4 now operation_type params pending
     = (uuid4, dict_set uuid4 (operation_type, params, double_add now 300) pending)
   \<and> dict_get (snd (add_pending_operation uuid4 now operation_type params pending))
        (fst (add_pending_operation uuid4 now operation_type params pending))
     = Some (operation_type, params, double_add now 300)
   \<and> (0 < now + 300 \<longrightarrow>
        \<bar>double_add now 300 - (now + 300)\<bar> \<le> pow2 (binary_exponent (now + 300) - 53))
   \<and> (token \<noteq> uuid4 \<longrightarrow>
        dict_get (snd (add_pending_operation uuid4 now operation_type params pending)) token
          = dict_get pending token)
   \<and> (\<not> dict_contains uuid4 pending \<longrightarrow>
        snd (add_pending_operation uuid4 now operation_type params pending)
          = pending @ [(uuid4, (operation_type, params, double_add now 300))]
      \<and> length (snd (add_pending_operation uuid4 now operation_type params pending))
          = length pending + 1
      \<and> (dict_get pending token = Some r \<longrightarrow>
           dict_get (snd (add_pending_operation uuid4 now operation_type params pending)) token
             = Some r))
   \<and> (dict_contains uuid4 pending \<longrightarrow>
        length (snd (add_pending_operation uuid4 now operation_type params pending))
          = length pending)"
proof -
  have ne: "token \<noteq> uuid4" if "\<not> dict_contains uuid4 pending" "dict_get pending token = Some r"
  proof
    assume "token = uuid4"
    then have "dict_get pending uuid4 \<noteq> None" using that(2) by simp
    then show False using that(1) by (simp add: dict_contains_get)
  qed
  have 1: "snd (add_pending_operation uuid4 now operation_type params pending)
           = pending @ [(uuid4, (operation_type, params, double_add now 300))]"
    if "\<not> dict_contains uuid4 pending"
    by (simp add: add_pending_operation_eq dict_set_fresh[OF that])
  have 2: "dict_get (snd (add_pending_operation uuid4 now operation_type params pending)) k
           = (if k = uuid4 then Some (operation_type, params, double_add now 300)
              else dict_get pending k)"
    for k
    by (simp add: add_pending_operation_eq dict_get_set)
  have 3: "fst (add_pending_operation uuid4 now operation_type params pending) = uuid4"
    by (simp add: add_pending_operation_eq)
  have 4: "length (snd (add_pending_operation uuid4 now operation_type params pending))
           = (if dict_contains uuid4 pending then length pending else length pending + 1)"
    by (simp add: add_pending_operation_eq length_dict_set)
  have 5: "\<bar>double_add now 300 - (now + 300)\<bar> \<le> pow2 (binary_exponent (now + 300) - 53)"
    if "0 < now + 300"
    using round_double_error[OF that] by (simp add: double_add_def)
  show ?thesis
    unfolding 2 3 4 using ne 1 5 by (auto simp: add_pending_operation_eq)
qed

theorem add_pending_operation_stores_record_witness:
  "(0::real) < 1000 + 300
   \<and> \<not> dict_contains ''t1'' [(''t0'', (''stop_db_cluster'', ''c0'', 50::real))]
   \<and> add_pending_operation ''t1'' 1000 ''delete_db_cluster'' ''c1''
        [(''t0'', (''stop_db_cluster'', ''c0'', 50))]
      = (''t1'', [(''t0'', (''stop_db_cluster'', ''c0'', 50)),
                  (''t1'', (''delete_db_cluster'', ''c1'', 1300))])
   \<and> dict_get (snd (add_pending_operation ''t1'' 1000 ''delete_db_cluster'' ''c1''
        [(''t0'', (''stop_db_cluster'', ''c0'', 50))])) ''t0''
      = Some (''stop_db_cluster'', ''c0'', 50)
   \<and> dict_contains ''t0'' [(''t0'', (''stop_db_cluster'', ''c0'', 50::real))]
   \<and> add_pending_operation ''t0'' 1000 ''delete_db_cluster'' ''c1''
        [(''t0'', (''stop_db_cluster'', ''c0'', 50))]
      = (''t0'', [(''t0'', (''delete_db_cluster'', ''c1'', 1300))])"
proof -
  have sum: "double_add 1000 300 = 1300"
    by (simp add: double_eval)
  show ?thesis
    using
      add_pending_operation_stores_record[where ?uuid4.0 = "''t1''" and now = 1000
        and operation_type = "''delete_db_cluster''" and params = "''c1''"
        and pending = "[(''t0'', (''stop_db_cluster'', ''c0'', 50))]"
        and token = "''t0''" and r = "(''stop_db_cluster'', ''c0'', 50)"]
      add_pending_operation_stores_record[where ?uuid4.0 = "''t0''" and now = 1000
        and operation_type = "''delete_db_cluster''" and params = "''c1''"
        and pending = "[(''t0'', (''stop_db_cluster'', ''c0'', 50))]"
        and token = "''t0''" and r = "(''stop_db_cluster'', ''c0'', 50)"]
    by (simp add: sum dict_get_def dict_contains_def dict_set_def)
qed

text \<open>
  The claim as first stated has every issue grow the registry by one entry, leave every
  stored record unchanged, and store the expiration time \<open>now + 300\<close>. When the
  generated token is already a token of the registry, the assignment replaces its record
  and the registry keeps its size. And the stored expiration time is the rounded sum: for
  \<open>now\<close> = 2147483400.0000007 it is not \<open>now + 300\<close>.
\<close>

theorem add_pending_operation_counterexample:
  "length (snd (add_pending_operation ''t1'' 1000 ''stop_db_cluster'' ''c2''
             [(''t1'', (''delete_db_cluster'', ''c1'', 1200))]))
     = length [(''t1'', (''delete_db_cluster'', ''c1'', 1200::real))]
   \<and> dict_get [(''t1'', (''delete_db_cluster'', ''c1'', 1200::real))] ''t1''
     = Some (''delete_db_cluster'', ''c1'', 1200)
   \<and> dict_get (snd (add_pending_operation ''t1'' 1000 ''stop_db_cluster'' ''c2''
                   [(''t1'', (''delete_db_cluster'', ''c1'', 1200))])) ''t1''
     = Some (''stop_db_cluster'', ''c2'', 1300)
   \<and> round_double (9007198214553603 / 4194304) = 9007198214553603 / 4194304
   \<and> snd (add_pending_operation ''t1'' (9007198214553603 / 4194304) ''stop_db_cluster'' ''c2'' [])
     = [(''t1'', (''stop_db_cluster'', ''c2'', 9007199472844804 / 4194304))]
   \<and> (9007199472844804 / 4194304 :: real) \<noteq> 9007198214553603 / 4194304 + 300"
proof -
  have sum: "double_add 1000 300 = 1300"
    by (simp add: double_eval)
  have sum': "double_add (9007198214553603 / 4194304) 300 = 9007199472844804 / 4194304"
    by (simp add: double_eval)
  have T: "round_double (9007198214553603 / 4194304) = 9007198214553603 / 4194304"
    by (simp add: double_eval)
  show ?thesis
    using T by (simp add: add_pending_operation_eq sum sum' dict_set_def dict_get_def)
qed

text \<open>
  Claim C5. \<open>remove_pending_operation\<close> never raises. It returns \<open>True\<close> exactly
  when the token was in the registry; the record of that token is then gone and every
  other record is as before (on a well-formed registry exactly one entry is deleted). For
  an absent token it returns \<open>False\<close> and leaves the registry as it was. So removing
  a stored token twice in a row returns \<open>True\<close>, then \<open>False\<close>.
\<close>

theorem remove_pending_operation_idempotent:
  "remove_pending_operation token pending
     = Inr (dict_contains token pending, AList.delete token pending)
   \<and> dict_get (AList.delete token pending) token = None
   \<and> (other \<noteq> token \<longrightarrow> dict_get (AList.delete token pending) other = dict_get pending other)
   \<and> (\<not> dict_contains token pending \<longrightarrow>
        remove_pending_operation token pending = Inr (False, pending))
   \<and> (dict_contains token pending \<longrightarrow>
        remove_pending_operation token pending = Inr (True, AList.delete token pending)
      \<and> remove_pending_operation token (AList.delete token pending)
          = Inr (False, AList.delete token pending))
   \<and> (dict_inv pending \<and> dict_contains token pending \<longrightarrow>
        length (AList.delete token pending) + 1 = length pending)"
proof -
  have nc: "\<not> dict_contains token (AList.delete token pending)"
    by (simp add: dict_contains_get dict_get_delete)
  have len: "length (AList.delete token d) + 1 = length d"
    if "dict_inv d" "dict_contains token d" for d :: "'a pending_operations"
    using that
  proof (induction d)
    case Nil
    then show ?case by (simp add: dict_contains_def)
  next
    case (Cons x d)
    show ?case
    proof (cases "fst x = token")
      case True
      then have "token \<notin> fst ` set d" using Cons.prems(1) by (auto simp: dict_inv_def)
      then show ?thesis using True by (cases x) simp
    next
      case False
      then have "dict_inv d" "dict_contains token d"
        using Cons.prems by (auto simp: dict_inv_def dict_contains_def)
      then show ?thesis using Cons.IH False by (cases x) auto
    qed
  qed
  have unchanged: "AList.delete token pending = pending" if "\<not> dict_contains token pending"
    using that by (simp add: dict_contains_def)
  show ?thesis
    using nc len unchanged
    by (auto simp: remove_pending_operation_eq dict_get_delete delete_idem simp del: delete_id)
qed

theorem remove_pending_operation_idempotent_witness:
  "remove_pending_operation ''t1''
      [(''t0'', (''stop_db_cluster'', ''c0'', 50::real)), (''t1'', (''delete_db_cluster'', ''c1'', 1300))]
     = Inr (True, [(''t0'', (''stop_db_cluster'', ''c0'', 50))])
   \<and> remove_pending_operation ''t1'' [(''t0'', (''stop_db_cluster'', ''c0'', 50::real))]
     = Inr (False, [(''t0'', (''stop_db_cluster'', ''c0'', 50))])
   \<and> dict_inv [(''t0'', (''stop_db_cluster'', ''c0'', 50::real)), (''t1'', (''delete_db_cluster'', ''c1'', 1300))]
   \<and> dict_contains ''t1''
      [(''t0'', (''stop_db_cluster'', ''c0'', 50::real)), (''t1'', (''delete_db_cluster'', ''c1'', 1300))]"
  using remove_pending_operation_idempotent[where token = "''t1''" and other = "''t0''"
      and pending = "[(''t0'', (''stop_db_cluster'', ''c0'', 50::real)),
                      (''t1'', (''delete_db_cluster'', ''c1'', 1300))]"]
  by (simp add: dict_contains_def dict_inv_def)

text \<open>
  Claim C7. A successful lookup does not touch the record it finds. If
  \<open>get_pending_operation\<close> returns a record, that record is the one that was stored,
  it is still stored afterwards (the lookup only swept expired records), and another
  lookup of the same token at any time that is not past the record's expiration time
  returns the same record, also after any calls in between that leave the record alone
  (\<open>leaves\<close>). The record goes only when \<open>remove_pending_operation\<close> is called:
  that call returns \<open>True\<close>, and a lookup after it finds nothing.
\<close>

theorem lookup_does_not_mutate:
  assumes "dict_inv pending"
    and "get_pending_operation now token pending = Inr (Some r, pending1)"
  shows "dict_get pending token = Some r
       \<and> pending1 = unexpired now pending
       \<and> dict_get pending1 token = Some r
       \<and> (\<not> expiration_time r < now' \<longrightarrow>
            get_pending_operation now' token pending1 = Inr (Some r, unexpired now' pending1))
       \<and> (list_all (leaves token (expiration_time r)) reqs \<and> \<not> expiration_time r < now' \<longrightarrow>
            (\<exists>pending2. run_requests reqs pending1 = Inr pending2
                \<and> get_pending_operation now' token pending2
                    = Inr (Some r, unexpired now' pending2)))
       \<and> remove_pending_operation token pending1 = Inr (True, AList.delete token pending1)
       \<and> get_pending_operation now' token (AList.delete token pending1)
            = Inr (None, unexpired now' (AList.delete token pending1))"
proof -
  have p1: "pending1 = unexpired now pending"
    and found: "dict_get (unexpired now pending) token = Some r"
    using assms by (auto simp: get_pending_operation_eq)
  have stored: "dict_get pending token = Some r"
    using found by (auto simp: dict_get_unexpired[OF assms(1)] split: option.splits if_splits)
  have inv1: "dict_inv pending1"
    using assms(1) by (simp add: p1 dict_inv_unexpired)
  have get1: "dict_get pending1 token = Some r"
    using found by (simp add: p1)
  have again: "get_pending_operation now' token p = Inr (Some r, unexpired now' p)"
    if "\<not> expiration_time r < now'" "dict_inv p" "dict_get p token = Some r" for p
    using that by (simp add: get_pending_operation_eq dict_get_unexpired)
  have later: "\<exists>pending2. run_requests reqs pending1 = Inr pending2
                \<and> get_pending_operation now' token pending2
                    = Inr (Some r, unexpired now' pending2)"
    if "list_all (leaves token (expiration_time r)) reqs" "\<not> expiration_time r < now'"
    using run_requests_leaves[OF inv1 get1 that(1)] again[OF that(2)] by blast
  have rem: "remove_pending_operation token pending1 = Inr (True, AList.delete token pending1)"
    using get1 by (simp add: remove_pending_operation_eq dict_contains_get)
  have gone: "get_pending_operation now' token (AList.delete token pending1)
            = Inr (None, unexpired now' (AList.delete token pending1))"
    using dict_inv_delete[OF inv1, of token]
    by (simp add: get_pending_operation_eq dict_get_unexpired dict_get_delete)
  show ?thesis
    using stored p1 get1 again[OF _ inv1 get1] later rem gone by blast
qed

theorem lookup_does_not_mutate_witness:
  "dict_inv [(''t1'', (''delete_db_cluster'', ''c1'', 1300::real))]
   \<and> get_pending_operation 1000 ''t1'' [(''t1'', (''delete_db_cluster'', ''c1'', 1300::real))]
       = Inr (Some (''delete_db_cluster'', ''c1'', 1300), [(''t1'', (''delete_db_cluster'', ''c1'', 1300))])
   \<and> get_pending_operation 1300 ''t1'' [(''t1'', (''delete_db_cluster'', ''c1'', 1300::real))]
       = Inr (Some (''delete_db_cluster'', ''c1'', 1300), [(''t1'', (''delete_db_cluster'', ''c1'', 1300))])
   \<and> list_all (leaves ''t1'' 1300)
        [Issue ''t2'' 1100 ''stop_db_cluster'' ''c2'', Lookup 1200 ''t2'', Remove ''t2'']
   \<and> run_requests [Issue ''t2'' 1100 ''stop_db_cluster'' ''c2'', Lookup 1200 ''t2'', Remove ''t2'']
        [(''t1'', (''delete_db_cluster'', ''c1'', 1300::real))]
       = Inr [(''t1'', (''delete_db_cluster'', ''c1'', 1300))]
   \<and> remove_pending_operation ''t1'' [(''t1'', (''delete_db_cluster'', ''c1'', 1300::real))]
       = Inr (True, [])
   \<and> get_pending_operation 1300 ''t1'' ([] :: string pending_operations) = Inr (None, [])"
proof -
  have inv: "dict_inv [(''t1'', (''delete_db_cluster'', ''c1'', 1300::real))]"
    by (simp add: dict_inv_def)
  have look: "get_pending_operation 1000 ''t1'' [(''t1'', (''delete_db_cluster'', ''c1'', 1300::real))]
       = Inr (Some (''delete_db_cluster'', ''c1'', 1300), [(''t1'', (''delete_db_cluster'', ''c1'', 1300))])"
    by (simp add: get_pending_operation_eq[OF inv] unexpired_def expiration_time_def dict_get_def)
  have run: "run_requests [Issue ''t2'' 1100 ''stop_db_cluster'' ''c2'', Lookup 1200 ''t2'', Remove ''t2'']
        [(''t1'', (''delete_db_cluster'', ''c1'', 1300::real))]
       = Inr [(''t1'', (''delete_db_cluster'', ''c1'', 1300))]"
    by (simp add: add_pending_operation_eq dict_set_def get_pending_operation_def
        cleanup_expired_operations_def expired_tokens_def remove_pending_operation_def
        dict_contains_def dict_del_def dict_get_def double_eval)
  show ?thesis
    using inv look run
      lookup_does_not_mutate[OF inv look, where now' = 1300
        and reqs = "[Issue ''t2'' 1100 ''stop_db_cluster'' ''c2'', Lookup 1200 ''t2'', Remove ''t2'']"]
    by (simp add: expiration_time_def unexpired_def)
qed

text \<open>
  Claim C8. Tokens are unique among the stored records. Starting from the empty registry
  (or any well-formed one), every sequence of issue, lookup and remove calls runs without
  error and leaves a registry that holds no token twice. Under the hypothesis that each
  generated token is fresh for the registry at the time of its call, issuing \<open>N\<close>
  operations returns \<open>N\<close> pairwise distinct tokens, all different from the tokens
  stored before, and the registry grows by \<open>N\<close> entries.
\<close>

theorem tokens_unique:
  "(\<exists>pending. run_requests reqs [] = Inr pending \<and> dict_inv pending)
   \<and> (dict_inv pending0 \<longrightarrow>
        (\<exists>pending. run_requests reqs pending0 = Inr pending \<and> dict_inv pending))
   \<and> (fresh_supply calls pending0 \<longrightarrow>
          distinct (fst (issue_all calls pending0))
        \<and> length (fst (issue_all calls pending0)) = length calls
        \<and> set (fst (issue_all calls pending0)) \<inter> fst ` set pending0 = {}
        \<and> length (snd (issue_all calls pending0)) = length pending0 + length calls)"
  using run_requests_inv[OF dict_inv_Nil, of reqs] run_requests_inv[of pending0 reqs]
    issue_all_tokens[of calls pending0] issue_all_length[of calls pending0]
  by blast

theorem tokens_unique_witness:
  "dict_inv [(''t0'', (''stop_db_cluster'', ''c0'', 50::real))]
   \<and> run_requests [Issue ''t1'' 1000 ''delete_db_cluster'' ''c1'', Lookup 1001 ''t1'',
                    Issue ''t1'' 1002 ''stop_db_cluster'' ''c2'', Remove ''t0'']
        [(''t0'', (''stop_db_cluster'', ''c0'', 50::real))]
       = Inr [(''t1'', (''stop_db_cluster'', ''c2'', 1302))]
   \<and> fresh_supply [(''t1'', 1000, ''delete_db_cluster'', ''c1''), (''t2'', 1001, ''stop_db_cluster'', ''c2'')]
        [(''t0'', (''stop_db_cluster'', ''c0'', 50::real))]
   \<and> issue_all [(''t1'', 1000, ''delete_db_cluster'', ''c1''), (''t2'', 1001, ''stop_db_cluster'', ''c2'')]
        [(''t0'', (''stop_db_cluster'', ''c0'', 50::real))]
       = ([''t1'', ''t2''],
          [(''t0'', (''stop_db_cluster'', ''c0'', 50)), (''t1'', (''delete_db_cluster'', ''c1'', 1300)),
           (''t2'', (''stop_db_cluster'', ''c2'', 1301))])"
  using tokens_unique[where
      reqs = "[Issue ''t1'' 1000 ''delete_db_cluster'' ''c1'', Lookup 1001 ''t1'',
               Issue ''t1'' 1002 ''stop_db_cluster'' ''c2'', Remove ''t0'']"
      and ?pending0.0 = "[(''t0'', (''stop_db_cluster'', ''c0'', 50::real))]"
      and calls = "[(''t1'', 1000, ''delete_db_cluster'', ''c1''), (''t2'', 1001, ''stop_db_cluster'', ''c2'')]"]
  by (simp add: dict_inv_def add_pending_operation_eq dict_set_def dict_contains_def
      get_pending_operation_def cleanup_expired_operations_def expired_tokens_def dict_del_def
      remove_pending_operation_def dict_get_def double_eval)

section \<open>The claims about paginated fetching and the listings\<close>



text \<open>
  Claim C6. \<open>handle_paginated_aws_api_call\<close> returns the empty list, and no error,
  when the iterator delivers no page, when no page has a record under the result key, and
  in particular when the result key is absent on every page. A page without the result key
  contributes no record and no failure: the call returns what it returns without that page.
\<close>

theorem fetch_all_empty_listing:
  "handle_paginated_aws_api_call (\<lambda>paginator_name parameters. [])
        pagination_config paginator_name operation_parameters format_function result_key
     = Inr []
   \<and> ((\<forall>page \<in> set pages. page_get page result_key = []) \<longrightarrow>
        handle_paginated_aws_api_call (\<lambda>paginator_name parameters. map Inr pages)
          pagination_config paginator_name operation_parameters format_function result_key
        = Inr [])
   \<and> ((\<forall>page \<in> set pages. dict_get page result_key = None) \<longrightarrow>
        handle_paginated_aws_api_call (\<lambda>paginator_name parameters. map Inr pages)
          pagination_config paginator_name operation_parameters format_function result_key
        = Inr [])
   \<and> (dict_get page result_key = None \<longrightarrow>
        page_get page result_key = []
      \<and> handle_paginated_aws_api_call (\<lambda>paginator_name parameters. before @ Inr page # after)
          pagination_config paginator_name operation_parameters format_function result_key
        = handle_paginated_aws_api_call (\<lambda>paginator_name parameters. before @ after)
          pagination_config paginator_name operation_parameters format_function result_key)"
proof -
  have empty: "consume_pages format_function result_key (map Inr ps) results = (Inr results, [])"
    if "\<forall>page \<in> set ps. page_get page result_key = []" for ps results
    using that by (induction ps arbitrary: results) auto
  have absent: "page_get p result_key = []" if "dict_get p result_key = None" for p
    using that by (simp add: page_get_def)
  have 1: "handle_paginated_aws_api_call (\<lambda>paginator_name parameters. [])
        pagination_config paginator_name operation_parameters format_function result_key
     = Inr []"
    by (simp add: handle_paginated_aws_api_call_def)
  have 2: "handle_paginated_aws_api_call (\<lambda>paginator_name parameters. map Inr pages)
          pagination_config paginator_name operation_parameters format_function result_key
        = Inr []"
    if "\<forall>page \<in> set pages. page_get page result_key = []"
    using empty[OF that, of "[]"] by (simp add: handle_paginated_aws_api_call_def)
  have 3: "handle_paginated_aws_api_call (\<lambda>paginator_name parameters. before @ Inr page # after)
          pagination_config paginator_name operation_parameters format_function result_key
        = handle_paginated_aws_api_call (\<lambda>paginator_name parameters. before @ after)
          pagination_config paginator_name operation_parameters format_function result_key"
    if "dict_get page result_key = None"
    using consume_pages_skip[OF absent[OF that]]
    by (simp add: handle_paginated_aws_api_call_def)
  show ?thesis
    using 1 2 3 absent by blast
qed

theorem fetch_all_empty_listing_witness:
  "dict_get [(''Marker'', [])] ''Items'' = (None :: nat list option)
   \<and> dict_get [] ''Items'' = (None :: nat list option)
   \<and> handle_paginated_aws_api_call
        (\<lambda>paginator_name parameters. map Inr [[(''Marker'', [])], []])
        (PyDict []) ''describe_db_instances'' [] (\<lambda>item :: nat. Inr (10 * item)) ''Items''
      = Inr []
   \<and> handle_paginated_aws_api_call
        (\<lambda>paginator_name parameters. [Inr [(''Items'', [1::nat])], Inr [(''Marker'', [])], Inr [(''Items'', [2])]])
        (PyDict []) ''describe_db_instances'' [] (\<lambda>item. Inr (10 * item)) ''Items''
      = Inr [10, 20]"
proof -
  have absent: "\<forall>page \<in> set [[(''Marker'', [])], []]. dict_get page ''Items'' = (None :: nat list option)"
    by (simp add: dict_get_def)
  have two: "handle_paginated_aws_api_call
        (\<lambda>paginator_name parameters. [Inr [(''Items'', [1::nat])]] @ [Inr [(''Items'', [2])]])
        (PyDict []) ''describe_db_instances'' [] (\<lambda>item. Inr (10 * item)) ''Items''
      = Inr [10, 20]"
    by (simp add: handle_paginated_aws_api_call_def page_get_def dict_get_def)
  show ?thesis
    using absent two
      fetch_all_empty_listing[where pages = "[[(''Marker'', [])], []]" and result_key = "''Items''"
        and format_function = "\<lambda>item :: nat. Inr (10 * item)" and pagination_config = "PyDict []"
        and paginator_name = "''describe_db_instances''" and operation_parameters = "[]"
        and page = "[(''Marker'', [])]" and before = "[Inr [(''Items'', [1::nat])]]"
        and after = "[Inr [(''Items'', [2])]]"]
    by (simp add: dict_get_def)
qed

text \<open>
  Claim C9. A listing result has a count equal to the number of its items. Whatever
  \<open>list_instances\<close> returns has \<open>count\<close> equal to the length of \<open>instances\<close>,
  and whatever \<open>list_db_log_files\<close> returns has \<open>count\<close> equal to the length of
  \<open>log_files\<close>. And they do return: for every sequence of pages delivered without a
  fetch error, \<open>list_instances\<close> returns the list of all summaries with their number;
  so does \<open>list_db_log_files\<close> when the timestamps convert and no size is negative.
\<close>

theorem listing_count_matches_items:
  "(list_instances rds_client pagination_config = Inr result \<longrightarrow>
      InstanceSummaryList.count result = int (length (instances result)))
   \<and> (list_db_log_files fromtimestamp log_client pagination_config db_instance_identifier = Inr logs \<longrightarrow>
      DBLogFileList.count logs = int (length (log_files logs)))
   \<and> list_instances (\<lambda>paginator_name parameters. map Inr pages) pagination_config
       = Inr \<lparr>instances = map from_DBInstanceTypeDef (all_items ''DBInstances'' pages),
              count = int (length (all_items ''DBInstances'' pages)),
              resource_uri = ''aws-rds://db-instance''\<rparr>
   \<and> ((\<forall>log_file \<in> set (all_items ''DescribeDBLogFiles'' log_pages).
          0 \<le> get_default (Size log_file) 0) \<longrightarrow>
        (\<exists>logs'. list_db_log_files (\<lambda>t. Inr (to_datetime t))
                    (\<lambda>paginator_name parameters. map Inr log_pages)
                    pagination_config db_instance_identifier = Inr logs'
             \<and> DBLogFileList.count logs' = int (length (all_items ''DescribeDBLogFiles'' log_pages))
             \<and> length (log_files logs') = length (all_items ''DescribeDBLogFiles'' log_pages)))"
proof -
  have 1: "InstanceSummaryList.count result = int (length (instances result))"
    if "list_instances rds_client pagination_config = Inr result"
    using that by (auto simp: list_instances_def split: sum.splits)
  have 2: "DBLogFileList.count logs = int (length (log_files logs))"
    if "list_db_log_files fromtimestamp log_client pagination_config db_instance_identifier = Inr logs"
    using that by (auto simp: list_db_log_files_def split: sum.splits)
  have "consume_pages (\<lambda>instance. Inr (from_DBInstanceTypeDef instance)) ''DBInstances''
          (map Inr pages) []
        = (Inr ([] @ map from_DBInstanceTypeDef (all_items ''DBInstances'' pages)), [])"
    by (rule consume_pages_ok) simp
  then have 3: "list_instances (\<lambda>paginator_name parameters. map Inr pages) pagination_config
       = Inr \<lparr>instances = map from_DBInstanceTypeDef (all_items ''DBInstances'' pages),
              count = int (length (all_items ''DBInstances'' pages)),
              resource_uri = ''aws-rds://db-instance''\<rparr>"
    by (simp add: list_instances_def handle_paginated_aws_api_call_def)
  have 4: "\<exists>logs'. list_db_log_files (\<lambda>t. Inr (to_datetime t))
                    (\<lambda>paginator_name parameters. map Inr log_pages)
                    pagination_config db_instance_identifier = Inr logs'
             \<and> DBLogFileList.count logs' = int (length (all_items ''DescribeDBLogFiles'' log_pages))
             \<and> length (log_files logs') = length (all_items ''DescribeDBLogFiles'' log_pages)"
    if ok: "\<forall>log_file \<in> set (all_items ''DescribeDBLogFiles'' log_pages).
          0 \<le> get_default (Size log_file) 0"
  proof -
    define g where "g = (\<lambda>log_file :: DescribeDBLogFilesDetailsTypeDef.
       \<lparr>log_file_name = get_default (LogFileName log_file) '''',
        last_written = to_datetime (real_of_int (get_default (LastWritten log_file) 0) / 1000),
        size' = get_default (Size log_file) 0\<rparr>)"
    have "\<forall>log_file \<in> set (all_items ''DescribeDBLogFiles'' log_pages).
       from_DescribeDBLogFilesDetailsTypeDef (\<lambda>t. Inr (to_datetime t)) log_file = Inr (g log_file)"
      using ok by (simp add: from_DescribeDBLogFilesDetailsTypeDef_def g_def)
    from consume_pages_ok[OF this, of "[]"]
    show ?thesis
      by (simp add: list_db_log_files_def handle_paginated_aws_api_call_def)
  qed
  show ?thesis
    using 1 2 3 4 by blast
qed

theorem listing_count_matches_items_witness:
  "list_instances
     (\<lambda>paginator_name parameters.
        [Inr [(''DBInstances'',
               [\<lparr>DBInstanceIdentifier = Some ''db-1'', DbiResourceId = None,
                 DBInstanceStatus = Some ''available'', Engine = Some ''mysql'',
                 EngineVersion = None, DBInstanceClass = Some ''db.t3.medium'',
                 AvailabilityZone = None, MultiAZ = None, PubliclyAccessible = Some True,
                 DBClusterIdentifier = None,
                 TagList = Some [\<lparr>Key = Some ''env'', Value = Some ''test''\<rparr>,
                                 \<lparr>Key = Some ''orphan'', Value = None\<rparr>]\<rparr>])]])
     (PyDict [])
   = Inr \<lparr>instances =
            [\<lparr>instance_id = ''db-1'', dbi_resource_id = None, status = ''available'',
              engine = ''mysql'', engine_version = Some '''', instance_class = ''db.t3.medium'',
              availability_zone = None, multi_az = False, publicly_accessible = True,
              db_cluster = None, tag_list = [(''env'', ''test'')],
              InstanceSummary.resource_uri = None\<rparr>],
          count = 1, resource_uri = ''aws-rds://db-instance''\<rparr>
   \<and> 0 \<le> get_default (Size \<lparr>LogFileName = Some ''error.log'', LastWritten = Some 5000,
                                 Size = Some 12\<rparr>) 0
   \<and> list_db_log_files (\<lambda>t. Inr t)
        (\<lambda>paginator_name parameters.
           [Inr [(''DescribeDBLogFiles'',
                  [\<lparr>LogFileName = Some ''error.log'', LastWritten = Some 5000,
                    Size = Some 12\<rparr>])]])
        (PyDict []) ''db-1''
     = Inr \<lparr>log_files = [\<lparr>log_file_name = ''error.log'', last_written = 5, size' = 12\<rparr>],
            count = 1,
            resource_uri = ''aws-rds://db-instance/{db_instance_identifier}/log''\<rparr>"
  using listing_count_matches_items[where pagination_config = "PyDict []"
      and pages = "[[(''DBInstances'',
               [\<lparr>DBInstanceIdentifier = Some ''db-1'', DbiResourceId = None,
                 DBInstanceStatus = Some ''available'', Engine = Some ''mysql'',
                 EngineVersion = None, DBInstanceClass = Some ''db.t3.medium'',
                 AvailabilityZone = None, MultiAZ = None, PubliclyAccessible = Some True,
                 DBClusterIdentifier = None,
                 TagList = Some [\<lparr>Key = Some ''env'', Value = Some ''test''\<rparr>,
                                 \<lparr>Key = Some ''orphan'', Value = None\<rparr>]\<rparr>])]]"
      and log_pages = "[[(''DescribeDBLogFiles'',
                  [\<lparr>LogFileName = Some ''error.log'', LastWritten = Some 5000,
                    Size = Some 12\<rparr>])]]"
      and to_datetime = "\<lambda>t. t" and db_instance_identifier = "''db-1''"
      and rds_client = "\<lambda>paginator_name parameters. []"
      and result = "\<lparr>instances = [], count = 0, resource_uri = ''aws-rds://db-instance''\<rparr>"
      and log_client = "\<lambda>paginator_name parameters. []" and fromtimestamp = "\<lambda>t. Inr t"
      and logs = "\<lparr>log_files = [], count = 0,
                    resource_uri = ''aws-rds://db-instance/{db_instance_identifier}/log''\<rparr>"]
  by (simp add: list_instances_def list_db_log_files_def handle_paginated_aws_api_call_def
      page_get_def dict_get_def all_items_def from_DBInstanceTypeDef_def get_default_def
      from_DescribeDBLogFilesDetailsTypeDef_def dict_set_def)

section \<open>The claim about the performance report tool\<close>

text \<open>
  Claim C10. The claim is that \<open>create_performance_report\<close> raises \<open>ValueError\<close>,
  without calling the collaborator, in readonly mode and whenever the parsed start time is
  not strictly before the end time or the duration is too short or too long. The code does
  so when both times are naive or both aware (\<open>create_performance_report_rejections\<close>).
  It does not when one is aware and the other naive: a start time given with the suffix
  \<open>Z\<close> is aware, an omitted end time defaults to the naive \<open>now\<close> minus two days,
  and the comparison \<open>start >= end\<close> raises \<open>TypeError\<close>. Below, the start time is
  the first instant of 2030 (UTC) and the current time is noon of 4 November 2026: the
  start is years after the end, and the tool raises \<open>TypeError\<close>, not
  \<open>ValueError\<close>.
\<close>

theorem create_performance_report_naive_aware_mix:
  "create_performance_report False
     (\<lambda>s. if s = ''2030-01-01T00:00:00+00:00''
          then Inr \<lparr>wall_clock = 64029052800000000, utcoffset = Some 0\<rparr>
          else Inl (ValueError ''Invalid isoformat string''))
     \<lparr>wall_clock = 63929390400000000, utcoffset = None\<rparr>
     ''0.1.0''
     (\<lambda>params. Inr [(''AnalysisReportId'', ''report-1'')])
     ''db-EXAMPLEDBIID'' (Some ''2030-01-01T00:00:00Z'') None
   = (Inl (TypeError ''can't compare offset-naive and offset-aware datetimes''), [])"
  by (simp add: create_performance_report_def parse_time_parameters_def parse_one_def
      parse_iso_datetime_def endswith_Z_def replace_Z_def get_default_time_range_def
      datetime_minus_def validate_time_range_def datetime_ge_def)

end
